theory Spec2Isabelle
  imports Complex_Main "HOL-Library.Sublist"
begin

section \<open>Python numbers as the key generator uses them\<close>

text \<open>
  \<^verbatim>\<open>KeyGenerator.generate_keys\<close> (src/main.py, lines 30 to 65) mixes Python's
  unbounded \<^verbatim>\<open>int\<close> with \<^verbatim>\<open>float\<close>: \<^verbatim>\<open>/\<close> always gives a float,
  \<^verbatim>\<open>**\<close> gives an int only for an int base with a non-negative int exponent, a negative
  base under a fractional exponent gives a \<^verbatim>\<open>complex\<close>, and \<^verbatim>\<open>round\<close> takes a float
  back to an int (half to even) and rejects a complex with \<^verbatim>\<open>TypeError\<close>.

  A float is modelled by the real number it denotes. What the host adds to exact
  arithmetic is taken as a parameter, the record \<open>fpu\<close>: the rounding \<open>fl\<close> of an exact
  result to the nearest double, the C library's \<^verbatim>\<open>pow\<close> on a positive base, and the
  text \<^verbatim>\<open>str\<close> gives for a value that is not an int. The exponent range is unbounded,
  so \<^verbatim>\<open>OverflowError\<close> is not modelled; for a \<^verbatim>\<open>datetime.date\<close> (year at most 9999)
  every float of the source stays below \<open>10 ^ 40\<close>. A complex value is kept
  without its value (\<open>PyComplex\<close>): the source only ever adds, subtracts, multiplies and
  rounds one, and none of these looks at the value.
\<close>

datatype error = ValueError | TypeError | ZeroDivisionError | EOFError

datatype pynum = PyInt int | PyFloat real | PyComplex

type_synonym 'a res = "error + 'a"

record fpu =
  fl :: "real \<Rightarrow> real"
  libm_pow :: "real \<Rightarrow> real \<Rightarrow> real"
  repr :: "pynum \<Rightarrow> string"

text \<open>Operands are evaluated left to right; the first exception wins.\<close>

definition lift2 :: "(pynum \<Rightarrow> pynum \<Rightarrow> pynum res) \<Rightarrow> pynum res \<Rightarrow> pynum res \<Rightarrow> pynum res" where
  "lift2 f a b =
     (case a of Inl e \<Rightarrow> Inl e
      | Inr x \<Rightarrow> (case b of Inl e \<Rightarrow> Inl e | Inr y \<Rightarrow> f x y))"

abbreviation I :: "int \<Rightarrow> pynum res" where
  "I n \<equiv> Inr (PyInt n)"

abbreviation F :: "real \<Rightarrow> pynum res" where
  "F x \<equiv> Inr (PyFloat x)"

text \<open>
  A decimal literal is the double nearest to it. \<^verbatim>\<open>2.5\<close> and \<^verbatim>\<open>0.5\<close> are binary
  fractions and are written \<open>F (5/2)\<close> and \<open>F (1/2)\<close>; \<^verbatim>\<open>0.6\<close>, \<^verbatim>\<open>0.8\<close> and
  \<^verbatim>\<open>3.14\<close> are not, and go through \<open>lit\<close>.
\<close>

definition lit :: "fpu \<Rightarrow> real \<Rightarrow> pynum res" where
  "lit fp x = F (fl fp x)"

text \<open>The float an operand of a mixed operation is converted to.\<close>

fun to_float :: "fpu \<Rightarrow> pynum \<Rightarrow> real" where
  "to_float fp (PyInt n) = fl fp (of_int n)"
| "to_float fp (PyFloat x) = x"
| "to_float fp PyComplex = 0"

text \<open>\<^verbatim>\<open>+\<close>, \<^verbatim>\<open>-\<close> and \<^verbatim>\<open>*\<close>: exact on two ints, complex as soon as one operand is,
  otherwise the rounded float result.\<close>

fun arith :: "fpu \<Rightarrow> (int \<Rightarrow> int \<Rightarrow> int) \<Rightarrow> (real \<Rightarrow> real \<Rightarrow> real) \<Rightarrow> pynum \<Rightarrow> pynum \<Rightarrow> pynum res" where
  "arith fp oi orl (PyInt a) (PyInt b) = I (oi a b)"
| "arith fp oi orl PyComplex y = Inr PyComplex"
| "arith fp oi orl x PyComplex = Inr PyComplex"
| "arith fp oi orl x y = F (fl fp (orl (to_float fp x) (to_float fp y)))"

definition py_add :: "fpu \<Rightarrow> pynum res \<Rightarrow> pynum res \<Rightarrow> pynum res" where
  "py_add fp = lift2 (arith fp (+) (+))"

definition py_sub :: "fpu \<Rightarrow> pynum res \<Rightarrow> pynum res \<Rightarrow> pynum res" where
  "py_sub fp = lift2 (arith fp (-) (-))"

definition py_mul :: "fpu \<Rightarrow> pynum res \<Rightarrow> pynum res \<Rightarrow> pynum res" where
  "py_mul fp = lift2 (arith fp (*) (*))"

text \<open>
  True division. Two ints give the correctly rounded quotient of the exact values; a
  zero divisor raises. The source never divides a complex or by one; those two
  equations only make the function total.
\<close>

fun truediv :: "fpu \<Rightarrow> pynum \<Rightarrow> pynum \<Rightarrow> pynum res" where
  "truediv fp PyComplex y = Inr PyComplex"
| "truediv fp x PyComplex = Inr PyComplex"
| "truediv fp (PyInt a) (PyInt b) =
     (if b = 0 then Inl ZeroDivisionError else F (fl fp (of_int a / of_int b)))"
| "truediv fp x y =
     (if to_float fp y = 0 then Inl ZeroDivisionError
      else F (fl fp (to_float fp x / to_float fp y)))"

definition py_truediv :: "fpu \<Rightarrow> pynum res \<Rightarrow> pynum res \<Rightarrow> pynum res" where
  "py_truediv fp = lift2 (truediv fp)"

text \<open>
  \<^verbatim>\<open>float.__pow__\<close>: the special cases the interpreter settles itself, in its order,
  before the C library's \<^verbatim>\<open>pow\<close> sees a positive base other than 1.
\<close>

definition float_pow :: "fpu \<Rightarrow> real \<Rightarrow> real \<Rightarrow> pynum res" where
  "float_pow fp x y =
     (if y = 0 then F 1
      else if x = 0 then (if y < 0 then Inl ZeroDivisionError else F 0)
      else if x < 0 \<and> y \<noteq> of_int \<lfloor>y\<rfloor> then Inr PyComplex
      else let neg = (x < 0 \<and> odd \<lfloor>y\<rfloor>);
               r = (if \<bar>x\<bar> = 1 then 1 else libm_pow fp \<bar>x\<bar> y)
           in F (if neg then - r else r))"

text \<open>\<^verbatim>\<open>**\<close>: an int base with a non-negative int exponent stays an int; anything else
  is a float power of the converted operands. No complex operand occurs in the source.\<close>

fun power_num :: "fpu \<Rightarrow> pynum \<Rightarrow> pynum \<Rightarrow> pynum res" where
  "power_num fp PyComplex y = Inr PyComplex"
| "power_num fp x PyComplex = Inr PyComplex"
| "power_num fp (PyInt a) (PyInt b) =
     (if 0 \<le> b then I (a ^ nat b)
      else float_pow fp (fl fp (of_int a)) (fl fp (of_int b)))"
| "power_num fp x y = float_pow fp (to_float fp x) (to_float fp y)"

definition py_pow :: "fpu \<Rightarrow> pynum res \<Rightarrow> pynum res \<Rightarrow> pynum res" where
  "py_pow fp = lift2 (power_num fp)"

text \<open>\<^verbatim>\<open>round(x)\<close> with one argument: an int is returned as it is, a float goes to the
  nearest int with a tie going to the even one, a complex has no \<^verbatim>\<open>__round__\<close>.\<close>

definition round_half_even :: "real \<Rightarrow> int" where
  "round_half_even x =
     (let f = \<lfloor>x\<rfloor>; r = x - of_int f
      in if r < 1/2 then f else if 1/2 < r then f + 1 else if even f then f else f + 1)"

fun round_num :: "pynum \<Rightarrow> pynum res" where
  "round_num (PyInt n) = I n"
| "round_num (PyFloat x) = I (round_half_even x)"
| "round_num PyComplex = Inl TypeError"

definition py_round :: "pynum res \<Rightarrow> pynum res" where
  "py_round a = (case a of Inl e \<Rightarrow> Inl e | Inr x \<Rightarrow> round_num x)"

text \<open>\<^verbatim>\<open>str\<close> of an int: base 10, a minus sign for a negative value, no leading zero.\<close>

fun str_nat :: "nat \<Rightarrow> string" where
  "str_nat n =
     (if n < 10 then [''0123456789'' ! n]
      else str_nat (n div 10) @ [''0123456789'' ! (n mod 10)])"

declare str_nat.simps [simp del]

definition str_int :: "int \<Rightarrow> string" where
  "str_int n = (if n < 0 then CHR ''-'' # str_nat (nat (- n)) else str_nat (nat n))"

fun py_str :: "fpu \<Rightarrow> pynum \<Rightarrow> string" where
  "py_str fp (PyInt n) = str_int n"
| "py_str fp x = repr fp x"

section \<open>The key generator\<close>

record date =
  year :: int
  month :: int
  day :: int

text \<open>What \<^verbatim>\<open>datetime.date\<close> can hold, with the day bounded by 31 only.\<close>

definition calendar_date :: "date \<Rightarrow> bool" where
  "calendar_date d \<longleftrightarrow>
     1 \<le> year d \<and> year d \<le> 9999 \<and> 1 \<le> month d \<and> month d \<le> 12 \<and> 1 \<le> day d \<and> day d \<le> 31"

text \<open>Line 38: \<^verbatim>\<open>raw_seed = (month ** 2) * (year ** day) * (2 ** day)\<close>.\<close>

definition raw_seed :: "fpu \<Rightarrow> date \<Rightarrow> pynum res" where
  "raw_seed fp d =
     py_mul fp (py_mul fp (py_pow fp (I (month d)) (I 2)) (py_pow fp (I (year d)) (I (day d))))
       (py_pow fp (I 2) (I (day d)))"

text \<open>Lines 42 to 44:
  \<^verbatim>\<open>key0_raw = 2 * year + 7 * (month ** round(day / 2.5)) + day ** (round(day / 2) + round(day % 3 + 0.5 ** (day ** 0.6)))\<close>.\<close>

definition key0_raw :: "fpu \<Rightarrow> date \<Rightarrow> pynum res" where
  "key0_raw fp d =
     py_add fp
       (py_add fp (I (2 * year d))
          (py_mul fp (I 7)
             (py_pow fp (I (month d)) (py_round (py_truediv fp (I (day d)) (F (5/2)))))))
       (py_pow fp (I (day d))
          (py_add fp (py_round (py_truediv fp (I (day d)) (I 2)))
             (py_round
                (py_add fp (I (day d mod 3))
                   (py_pow fp (F (1/2)) (py_pow fp (I (day d)) (lit fp (6/10))))))))"

text \<open>Line 45: \<^verbatim>\<open>key1_raw = round((key0_raw + 1 - month) ** 0.8)\<close>.\<close>

definition key1_raw :: "fpu \<Rightarrow> date \<Rightarrow> pynum \<Rightarrow> pynum res" where
  "key1_raw fp d k0 =
     py_round
       (py_pow fp (py_sub fp (py_add fp (Inr k0) (I 1)) (I (month d))) (lit fp (8/10)))"

text \<open>Line 46:
  \<^verbatim>\<open>key2_raw = round(key0_raw * (month + year - day * 2) + key1_raw ** 0.5 - 2 ** month)\<close>.\<close>

definition key2_raw :: "fpu \<Rightarrow> date \<Rightarrow> pynum \<Rightarrow> pynum \<Rightarrow> pynum res" where
  "key2_raw fp d k0 k1 =
     py_round
       (py_sub fp
          (py_add fp (py_mul fp (Inr k0) (I (month d + year d - day d * 2)))
             (py_pow fp (Inr k1) (F (1/2))))
          (py_pow fp (I 2) (I (month d))))"

text \<open>Lines 47 to 49:
  \<^verbatim>\<open>key3_raw = round(((key1_raw + key2_raw) / 2 + (key1_raw / key0_raw) ** (day + (month % 3) % 2)) * month ** 3.14)\<close>.\<close>

definition key3_raw :: "fpu \<Rightarrow> date \<Rightarrow> pynum \<Rightarrow> pynum \<Rightarrow> pynum \<Rightarrow> pynum res" where
  "key3_raw fp d k0 k1 k2 =
     py_round
       (py_mul fp
          (py_add fp (py_truediv fp (py_add fp (Inr k1) (Inr k2)) (I 2))
             (py_pow fp (py_truediv fp (Inr k1) (Inr k0)) (I (day d + (month d mod 3) mod 2))))
          (py_pow fp (I (month d)) (lit fp (314/100))))"

text \<open>The four assignments in sequence; the first exception ends the call.\<close>

definition key_material :: "fpu \<Rightarrow> date \<Rightarrow> (pynum \<times> pynum \<times> pynum \<times> pynum) res" where
  "key_material fp d =
     (case key0_raw fp d of Inl e \<Rightarrow> Inl e | Inr k0 \<Rightarrow>
      (case key1_raw fp d k0 of Inl e \<Rightarrow> Inl e | Inr k1 \<Rightarrow>
       (case key2_raw fp d k0 k1 of Inl e \<Rightarrow> Inl e | Inr k2 \<Rightarrow>
        (case key3_raw fp d k0 k1 k2 of Inl e \<Rightarrow> Inl e | Inr k3 \<Rightarrow>
           Inr (k0, k1, k2, k3)))))"

text \<open>
  The host clock as \<^verbatim>\<open>datetime.date.today()\<close> reads it: the function looks at the date
  and at nothing else of the reading.
\<close>

record clock =
  today :: date
  seconds_into_day :: nat

text \<open>The return type \<^verbatim>\<open>Union[List[str], str]\<close>.\<close>

datatype keys = KeyList "string list" | SharedKey string

text \<open>
  \<^verbatim>\<open>generate_keys(mode)\<close>. \<open>sha\<close> stands for
  \<^verbatim>\<open>lambda s: hashlib.sha256(s.encode()).hexdigest()\<close>, a function of the standard
  library. The seed and its digest are computed first (lines 38 and 39) and never used;
  the mode is looked at last (lines 59 to 65), after all the arithmetic and hashing.
\<close>

definition generate_keys :: "fpu \<Rightarrow> (string \<Rightarrow> string) \<Rightarrow> clock \<Rightarrow> string \<Rightarrow> keys res" where
  "generate_keys fp sha c mode =
     (let d = today c in
      case raw_seed fp d of Inl e \<Rightarrow> Inl e | Inr seed \<Rightarrow>
       (let hashed_seed = sha (py_str fp seed) in
        case key_material fp d of Inl e \<Rightarrow> Inl e | Inr (k0_raw, k1_raw, k2_raw, k3_raw) \<Rightarrow>
         (let key0 = sha (py_str fp k0_raw);
              key1 = sha (py_str fp k1_raw);
              key2 = sha (py_str fp k2_raw);
              key3 = sha (py_str fp k3_raw);
              keys = [key0, key1, key2, key3]
          in if mode = ''normal'' then Inr (KeyList keys)
             else if mode = ''shared'' then
               (let shared_key = sha (key0 @ key1) in Inr (SharedKey shared_key))
             else Inl ValueError)))"

text \<open>
  The same function with lines 38 and 39 taken out: the variant the specification
  compares the source with.
\<close>

definition generate_keys_without_seed ::
    "fpu \<Rightarrow> (string \<Rightarrow> string) \<Rightarrow> clock \<Rightarrow> string \<Rightarrow> keys res" where
  "generate_keys_without_seed fp sha c mode =
     (let d = today c in
      case key_material fp d of Inl e \<Rightarrow> Inl e | Inr (k0_raw, k1_raw, k2_raw, k3_raw) \<Rightarrow>
       (let key0 = sha (py_str fp k0_raw);
            key1 = sha (py_str fp k1_raw);
            key2 = sha (py_str fp k2_raw);
            key3 = sha (py_str fp k3_raw);
            keys = [key0, key1, key2, key3]
        in if mode = ''normal'' then Inr (KeyList keys)
           else if mode = ''shared'' then
             (let shared_key = sha (key0 @ key1) in Inr (SharedKey shared_key))
           else Inl ValueError))"

section \<open>The key prompt\<close>

text \<open>
  \<^verbatim>\<open>user_key in normal_keys\<close> and \<^verbatim>\<open>user_key == shared_key\<close> on what
  \<^verbatim>\<open>generate_keys\<close> may return: membership in a list (containment in a string), and
  equality of two strings (a string never equals a list).
\<close>

fun py_in :: "string \<Rightarrow> keys \<Rightarrow> bool" where
  "py_in u (KeyList ks) = (u \<in> set ks)"
| "py_in u (SharedKey s) = sublist u s"

fun py_eq :: "string \<Rightarrow> keys \<Rightarrow> bool" where
  "py_eq u (SharedKey s) = (u = s)"
| "py_eq u (KeyList ks) = False"

text \<open>\<^verbatim>\<open>colorama.Fore.RED\<close>, the escape sequence \<^verbatim>\<open>ESC [ 3 1 m\<close>.\<close>

definition Fore_RED :: string where
  "Fore_RED = CHR 0x1B # ''[31m''"

text \<open>
  One pass through the body of \<^verbatim>\<open>while True\<close> (lines 137 to 146) with the key that
  \<^verbatim>\<open>input\<close> returned: both key sets are generated, each call reading the clock for
  itself, and the key is compared. The pass ends the function with a model name, or
  prints the rejection and goes round again.
\<close>

datatype verdict = Return string | Again

definition prompt_body ::
    "fpu \<Rightarrow> (string \<Rightarrow> string) \<Rightarrow> clock \<Rightarrow> clock \<Rightarrow> string \<Rightarrow> (verdict \<times> string list) res" where
  "prompt_body fp sha c1 c2 user_key =
     (case generate_keys fp sha c1 ''normal'' of Inl e \<Rightarrow> Inl e | Inr normal_keys \<Rightarrow>
      (case generate_keys fp sha c2 ''shared'' of Inl e \<Rightarrow> Inl e | Inr shared_key \<Rightarrow>
         if py_in user_key normal_keys then Inr (Return ''gpt-3.5-turbo'', [])
         else if py_eq user_key shared_key then
           Inr (Return ''gpt-4o-mini'', [''Shared key accepted. Switching to GPT-4o Mini.''])
         else Inr (Again, [Fore_RED @ ''Incorrect Key!''])))"

text \<open>
  \<^verbatim>\<open>prompt_for_key()\<close>. \<open>keyboard i\<close> is the line the \<open>i\<close>-th call of \<^verbatim>\<open>input\<close>
  returns, \<open>None\<close> when the input has ended (\<^verbatim>\<open>EOFError\<close>); \<open>clk n\<close> is what the
  \<open>n\<close>-th reading of the clock shows, two readings for each pass. The result is the
  returned model name or the exception that ended the call, with everything printed.
  The loop has no bound: on a keyboard that never gives a valid key the value is \<open>None\<close>.
\<close>

partial_function (option) prompt_for_key ::
    "fpu \<Rightarrow> (string \<Rightarrow> string) \<Rightarrow> (nat \<Rightarrow> string option) \<Rightarrow> (nat \<Rightarrow> clock) \<Rightarrow> nat \<Rightarrow>
       string list \<Rightarrow> (string res \<times> string list) option" where
  "prompt_for_key fp sha keyboard clk i out =
     (case keyboard i of
        None \<Rightarrow> Some (Inl EOFError, out @ [''Key: ''])
      | Some user_key \<Rightarrow>
          (case prompt_body fp sha (clk (2 * i)) (clk (2 * i + 1)) user_key of
             Inl e \<Rightarrow> Some (Inl e, out @ [''Key: ''])
           | Inr (Return model, printed) \<Rightarrow> Some (Inr model, out @ ''Key: '' # printed)
           | Inr (Again, printed) \<Rightarrow>
               prompt_for_key fp sha keyboard clk (i + 1) (out @ ''Key: '' # printed)))"

section \<open>The formulas of the specification\<close>

text \<open>
  The four formulas as the specification writes them, for comparison with the
  assignments of the source: values are numbers, not Python objects, every operation on
  floats is rounded by \<open>fl\<close>, \<^verbatim>\<open>round\<close> is \<open>round_half_even\<close>, a power with an int
  exponent that came out of \<^verbatim>\<open>round\<close> is the exact power of ints, and every other
  power is \<open>fpow\<close>, the power of two doubles with a base that is not negative.
\<close>

definition fpow :: "fpu \<Rightarrow> real \<Rightarrow> real \<Rightarrow> real" where
  "fpow fp x y = (if y = 0 then 1 else if x = 0 then 0 else if x = 1 then 1 else libm_pow fp x y)"

text \<open>
  \<open>key0_raw = 2*year + 7*(month^round(day/2.5))
     + day^(round(day/2) + round(day%3 + 0.5^(day^0.6)))\<close>.
\<close>

definition formula_key0 :: "fpu \<Rightarrow> date \<Rightarrow> int" where
  "formula_key0 fp d =
     2 * year d
     + 7 * month d ^ nat (round_half_even (fl fp (fl fp (of_int (day d)) / (5/2))))
     + day d ^ nat (round_half_even (fl fp (of_int (day d) / 2))
                    + round_half_even
                        (fl fp (fl fp (of_int (day d mod 3))
                                + fpow fp (1/2) (fpow fp (fl fp (of_int (day d))) (fl fp (6/10))))))"

text \<open>\<open>key1_raw = round((key0_raw + 1 - month)^0.8)\<close>.\<close>

definition formula_key1 :: "fpu \<Rightarrow> date \<Rightarrow> int \<Rightarrow> int" where
  "formula_key1 fp d k0 =
     round_half_even (fpow fp (fl fp (of_int (k0 + 1 - month d))) (fl fp (8/10)))"

text \<open>\<open>key2_raw = round(key0_raw*(month+year-2*day) + key1_raw^0.5 - 2^month)\<close>.\<close>

definition formula_key2 :: "fpu \<Rightarrow> date \<Rightarrow> int \<Rightarrow> int \<Rightarrow> int" where
  "formula_key2 fp d k0 k1 =
     round_half_even
       (fl fp (fl fp (fl fp (of_int (k0 * (month d + year d - 2 * day d)))
                      + fpow fp (fl fp (of_int k1)) (1/2))
               - fl fp (of_int (2 ^ nat (month d)))))"

text \<open>
  \<open>key3_raw = round(((key1_raw+key2_raw)/2 + (key1_raw/key0_raw)^(day + (month%3)%2))
     * month^3.14)\<close>.
\<close>

definition formula_key3 :: "fpu \<Rightarrow> date \<Rightarrow> int \<Rightarrow> int \<Rightarrow> int \<Rightarrow> int" where
  "formula_key3 fp d k0 k1 k2 =
     round_half_even
       (fl fp (fl fp (fl fp (of_int (k1 + k2) / 2)
                      + fpow fp (fl fp (of_int k1 / of_int k0))
                          (fl fp (of_int (day d + (month d mod 3) mod 2))))
               * fpow fp (fl fp (of_int (month d))) (fl fp (314/100))))"

section \<open>Hosts\<close>

text \<open>
  What the proofs below ask of the host's floating point, where they ask anything:
  rounding is monotone, a multiple of \<open>1/8\<close> with a numerator of at most 53 bits is
  a double and is left as it is, and the C library's \<^verbatim>\<open>pow\<close> of a positive base is
  not negative. The rounding of doubles, \<open>binary64\<close> below, has the first two
  properties (\<open>ieee_like_binary64\<close>).
\<close>

definition ieee_like :: "fpu \<Rightarrow> bool" where
  "ieee_like fp \<longleftrightarrow>
     mono (fl fp) \<and>
     (\<forall>k::int. \<bar>k\<bar> \<le> 2 ^ 53 \<longrightarrow> fl fp (of_int k / 8) = of_int k / 8) \<and>
     (\<forall>x y. 0 < x \<longrightarrow> 0 \<le> libm_pow fp x y)"

text \<open>
  Round-to-nearest, ties to even, onto the numbers with a significand of 53 bits: the
  rounding of an IEEE 754 double, without the bounds on the exponent.
\<close>

definition binary64 :: "real \<Rightarrow> real" where
  "binary64 x =
     (if x = 0 then 0
      else let e = \<lfloor>log 2 \<bar>x\<bar>\<rfloor>; u = 2 powr (of_int e - 52)
           in of_int (round_half_even (x / u)) * u)"

text \<open>The number a string of decimal digits denotes.\<close>

definition decimal_value :: "string \<Rightarrow> nat" where
  "decimal_value s = foldl (\<lambda>a c. 10 * a + (of_char c - 48)) 0 s"

text \<open>
  A host with exact arithmetic, for closed instances: nothing is rounded and \<^verbatim>\<open>pow\<close>
  is the real power. In the same instances \<open>plain\<close> stands where the hash function does.
\<close>

definition exact_fpu :: fpu where
  "exact_fpu = \<lparr>fl = (\<lambda>x. x), libm_pow = (\<lambda>x y. x powr y), repr = (\<lambda>x. ''float'')\<rparr>"

definition plain :: "string \<Rightarrow> string" where
  "plain s = s"

text \<open>A date on which every value of the exact host is a whole number.\<close>

definition golden_date :: date where
  "golden_date = \<lparr>year = 7977, month = 1, day = 7\<rparr>"

definition golden_clock :: clock where
  "golden_clock = \<lparr>today = golden_date, seconds_into_day = 0\<rparr>"

text \<open>The one calendar date on which the arithmetic of the key generator raises.\<close>

definition first_of_december_year_one :: date where
  "first_of_december_year_one = \<lparr>year = 1, month = 12, day = 1\<rparr>"

text \<open>
  A host with the arithmetic of doubles: every result is rounded by \<open>binary64\<close>, and
  \<^verbatim>\<open>pow\<close> is the rounded real power.
\<close>

definition double_fpu :: fpu where
  "double_fpu = \<lparr>fl = binary64, libm_pow = (\<lambda>x y. binary64 (x powr y)), repr = (\<lambda>x. ''float'')\<rparr>"

text \<open>
  Two more functions to stand where the hash function does: \<open>bracket\<close> is injective
  and marks each application, so a digest of digests differs from a digest of the
  strings themselves; \<open>constant_hash\<close> makes every two inputs collide.
\<close>

definition bracket :: "string \<Rightarrow> string" where
  "bracket s = ''<'' @ s @ ''>''"


text \<open>A clock that shows the date on which the arithmetic raises.\<close>

definition december_clock :: clock where
  "december_clock = \<lparr>today = first_of_december_year_one, seconds_into_day = 0\<rparr>"

text \<open>A keyboard for closed instances: a wrong key, then the second normal key of \<open>golden_date\<close>.\<close>

definition golden_keyboard :: "nat \<Rightarrow> string option" where
  "golden_keyboard i =
     (if i = 0 then Some ''letmein'' else if i = 1 then Some ''4096'' else None)"

section \<open>The operations on ints and floats\<close>

lemma fl_exact:
  assumes "ieee_like fp" "\<bar>k\<bar> \<le> 2 ^ 53"
  shows "fl fp (of_int k / 8) = of_int k / 8"
  using assms unfolding ieee_like_def by blast

lemma fl_mono: "ieee_like fp \<Longrightarrow> x \<le> y \<Longrightarrow> fl fp x \<le> fl fp y"
  unfolding ieee_like_def by (blast dest: monoD)

lemma fl_zero: "ieee_like fp \<Longrightarrow> fl fp 0 = 0"
  using fl_exact [of fp 0] by simp

lemma fl_one: "ieee_like fp \<Longrightarrow> fl fp 1 = 1"
  using fl_exact [of fp 8] by simp

lemma fl_minus_one: "ieee_like fp \<Longrightarrow> fl fp (- 1) = - 1"
  using fl_exact [of fp "- 8"] by simp

lemma fl_nonneg: "ieee_like fp \<Longrightarrow> 0 \<le> x \<Longrightarrow> 0 \<le> fl fp x"
  using fl_mono [of fp 0 x] by (simp add: fl_zero)

lemma fl_ge_one: "ieee_like fp \<Longrightarrow> 1 \<le> x \<Longrightarrow> 1 \<le> fl fp x"
  using fl_mono [of fp 1 x] by (simp add: fl_one)

lemma fl_ge_two: "ieee_like fp \<Longrightarrow> 2 \<le> x \<Longrightarrow> 2 \<le> fl fp x"
  using fl_mono [of fp 2 x] fl_exact [of fp 16] by simp

lemma fl_ge_three_quarters: "ieee_like fp \<Longrightarrow> 3/4 \<le> x \<Longrightarrow> 3/4 \<le> fl fp x"
  using fl_mono [of fp "3/4" x] fl_exact [of fp 6] by simp

lemma fl_le_half: "ieee_like fp \<Longrightarrow> x \<le> 1/2 \<Longrightarrow> fl fp x \<le> 1/2"
  using fl_mono [of fp x "1/2"] fl_exact [of fp 4] by simp

lemma fl_le_seven_eighths: "ieee_like fp \<Longrightarrow> x \<le> 7/8 \<Longrightarrow> fl fp x \<le> 7/8"
  using fl_mono [of fp x "7/8"] fl_exact [of fp 7] by simp

lemma round_half_even_nonneg: "0 \<le> x \<Longrightarrow> 0 \<le> round_half_even x"
  by (auto simp: round_half_even_def Let_def)

lemma float_pow_pos:
  assumes "ieee_like fp" "0 < x"
  shows "\<exists>r. float_pow fp x y = F r \<and> 0 \<le> r"
  using assms unfolding float_pow_def ieee_like_def by (auto simp: Let_def)

lemma float_pow_nonneg_base:
  assumes "ieee_like fp" "0 \<le> x" "0 < y"
  shows "\<exists>r. float_pow fp x y = F r \<and> 0 \<le> r"
  using assms unfolding float_pow_def ieee_like_def by (auto simp: Let_def)

lemma py_add_II: "py_add fp (I a) (I b) = I (a + b)"
  by (simp add: py_add_def lift2_def)
lemma py_sub_II: "py_sub fp (I a) (I b) = I (a - b)"
  by (simp add: py_sub_def lift2_def)
lemma py_mul_II: "py_mul fp (I a) (I b) = I (a * b)"
  by (simp add: py_mul_def lift2_def)
lemma py_add_IF: "py_add fp (I a) (F y) = F (fl fp (fl fp (of_int a) + y))"
  by (simp add: py_add_def lift2_def)
lemma py_add_FF: "py_add fp (F x) (F y) = F (fl fp (x + y))"
  by (simp add: py_add_def lift2_def)
lemma py_sub_FI: "py_sub fp (F x) (I b) = F (fl fp (x - fl fp (of_int b)))"
  by (simp add: py_sub_def lift2_def)
lemma py_mul_FF: "py_mul fp (F x) (F y) = F (fl fp (x * y))"
  by (simp add: py_mul_def lift2_def)
lemma py_truediv_II: "b \<noteq> 0 \<Longrightarrow> py_truediv fp (I a) (I b) = F (fl fp (of_int a / of_int b))"
  by (simp add: py_truediv_def lift2_def)
lemma py_truediv_IF: "y \<noteq> 0 \<Longrightarrow> py_truediv fp (I a) (F y) = F (fl fp (fl fp (of_int a) / y))"
  by (simp add: py_truediv_def lift2_def)
lemma py_pow_II: "0 \<le> b \<Longrightarrow> py_pow fp (I a) (I b) = I (a ^ nat b)"
  by (simp add: py_pow_def lift2_def)
lemma py_pow_IF: "py_pow fp (I a) (F y) = float_pow fp (fl fp (of_int a)) y"
  by (simp add: py_pow_def lift2_def)
lemma py_pow_FF: "py_pow fp (F x) (F y) = float_pow fp x y"
  by (simp add: py_pow_def lift2_def)
lemma py_pow_FI: "py_pow fp (F x) (I b) = float_pow fp x (fl fp (of_int b))"
  by (simp add: py_pow_def lift2_def)
lemma py_round_F: "py_round (F x) = I (round_half_even x)"
  by (simp add: py_round_def)
lemma py_round_I: "py_round (I n) = I n"
  by (simp add: py_round_def)

lemmas py_eval = py_add_II py_sub_II py_mul_II py_add_IF py_add_FF py_sub_FI py_mul_FF
  py_truediv_II py_truediv_IF py_pow_II py_pow_IF py_pow_FF py_pow_FI py_round_F py_round_I

lemma round_half_even_ge_one: "3/4 \<le> x \<Longrightarrow> 1 \<le> round_half_even x"
proof -
  assume x: "3/4 \<le> x"
  then have f: "0 \<le> \<lfloor>x\<rfloor>" by simp
  show ?thesis
  proof (cases "\<lfloor>x\<rfloor> = 0")
    case True
    with x show ?thesis by (simp add: round_half_even_def Let_def)
  next
    case False
    with f have "1 \<le> \<lfloor>x\<rfloor>" by linarith
    then show ?thesis by (auto simp: round_half_even_def Let_def)
  qed
qed

lemma round_half_even_zero: "0 \<le> x \<Longrightarrow> x \<le> 1/2 \<Longrightarrow> round_half_even x = 0"
proof -
  assume x: "0 \<le> x" "x \<le> 1/2"
  then have "\<lfloor>x\<rfloor> = 0" by (simp add: floor_eq_iff)
  with x show ?thesis by (simp add: round_half_even_def Let_def)
qed

lemma key0_raw_int:
  assumes cd: "calendar_date d" and fp: "ieee_like fp"
  shows "\<exists>e1 e2. 0 \<le> e1 \<and> 0 \<le> e2 \<and> (day d = 1 \<longrightarrow> e1 = 0) \<and> (2 \<le> day d \<longrightarrow> 1 \<le> e1) \<and>
           key0_raw fp d = I (2 * year d + 7 * month d ^ nat e1 + day d ^ nat e2)"
proof -
  from cd have day: "1 \<le> day d" by (simp add: calendar_date_def)
  have fday: "1 \<le> fl fp (of_int (day d))"
    using fl_ge_one [OF fp] day by simp
  define e1 where "e1 = round_half_even (fl fp (fl fp (of_int (day d)) / (5/2)))"
  have e1: "0 \<le> e1"
    unfolding e1_def using fday by (intro round_half_even_nonneg fl_nonneg [OF fp]) simp
  have e1_first: "e1 = 0" if "day d = 1"
  proof -
    have "fl fp (of_int (day d)) / (5/2) = 2/5"
      using that by (simp add: fl_one [OF fp])
    moreover have "0 \<le> fl fp (2/5)" "fl fp (2/5) \<le> 1/2"
      using fl_nonneg [OF fp, of "2/5"] fl_le_half [OF fp, of "2/5"] by simp_all
    ultimately show ?thesis
      unfolding e1_def by (simp only: round_half_even_zero)
  qed
  have e1_later: "1 \<le> e1" if "2 \<le> day d"
  proof -
    have "2 \<le> fl fp (of_int (day d))"
      using fl_ge_two [OF fp] that by simp
    then have "3/4 \<le> fl fp (of_int (day d)) / (5/2)" by simp
    then show ?thesis
      unfolding e1_def by (intro round_half_even_ge_one fl_ge_three_quarters [OF fp])
  qed
  have s1: "py_round (py_truediv fp (I (day d)) (F (5/2))) = I e1"
    by (simp add: py_eval e1_def)
  define e2 where "e2 = round_half_even (fl fp (of_int (day d) / of_int 2))"
  have e2: "0 \<le> e2"
    unfolding e2_def using day by (intro round_half_even_nonneg fl_nonneg [OF fp]) simp
  have s2: "py_round (py_truediv fp (I (day d)) (I 2)) = I e2"
    by (simp add: py_eval e2_def)
  obtain r where r: "float_pow fp (fl fp (of_int (day d))) (fl fp (6/10)) = F r"
    using float_pow_pos [OF fp, of "fl fp (of_int (day d))"] fday by force
  obtain p where p: "float_pow fp (1/2) r = F p" "0 \<le> p"
    using float_pow_pos [OF fp, of "1/2" r] by auto
  define e3 where "e3 = round_half_even (fl fp (fl fp (of_int (day d mod 3)) + p))"
  have "0 \<le> fl fp (of_int (day d mod 3))"
    by (intro fl_nonneg [OF fp]) simp
  then have e3: "0 \<le> e3"
    unfolding e3_def using p(2) by (intro round_half_even_nonneg fl_nonneg [OF fp]) simp
  have s3: "py_round (py_add fp (I (day d mod 3))
              (py_pow fp (F (1/2)) (py_pow fp (I (day d)) (lit fp (6/10))))) = I e3"
    unfolding lit_def py_pow_IF r py_pow_FF p py_add_IF py_round_F e3_def ..
  have "key0_raw fp d = I (2 * year d + 7 * month d ^ nat e1 + day d ^ nat (e2 + e3))"
    unfolding key0_raw_def s1 s2 s3 using e1 e2 e3 by (simp add: py_eval)
  with e1 e2 e3 e1_first e1_later show ?thesis
    by (intro exI [of _ e1] exI [of _ "e2 + e3"]) simp
qed

lemma key1_raw_int:
  assumes fp: "ieee_like fp" and base: "0 \<le> n + 1 - month d"
  shows "\<exists>k1. 0 \<le> k1 \<and> key1_raw fp d (PyInt n) = I k1"
proof -
  have x: "0 \<le> fl fp (of_int (n + 1 - month d))"
    using fl_nonneg [OF fp] base by simp
  have "0 < fl fp (8/10)"
    using fl_ge_three_quarters [OF fp, of "8/10"] by simp
  then obtain r where r: "float_pow fp (fl fp (of_int (n + 1 - month d))) (fl fp (8/10)) = F r" "0 \<le> r"
    using float_pow_nonneg_base [OF fp x] by blast
  have "key1_raw fp d (PyInt n) = I (round_half_even r)"
    unfolding key1_raw_def lit_def py_add_II py_sub_II py_pow_IF r py_round_F ..
  with r(2) show ?thesis
    using round_half_even_nonneg by blast
qed

lemma key2_raw_int:
  assumes fp: "ieee_like fp" and k1: "0 \<le> k1" and m: "0 \<le> month d"
  shows "\<exists>k2. key2_raw fp d (PyInt n) (PyInt k1) = I k2"
proof -
  have "0 \<le> fl fp (of_int k1)"
    using fl_nonneg [OF fp] k1 by simp
  then obtain q where q: "float_pow fp (fl fp (of_int k1)) (1/2) = F q"
    using float_pow_nonneg_base [OF fp, of "fl fp (of_int k1)" "1/2"] by auto
  show ?thesis
    unfolding key2_raw_def py_mul_II py_pow_IF q py_add_IF py_pow_II [OF m] py_sub_FI py_round_F
    by blast
qed

lemma key3_raw_int:
  assumes fp: "ieee_like fp" and cd: "calendar_date d" and k1: "0 \<le> k1" and n: "0 < n"
  shows "\<exists>k3. key3_raw fp d (PyInt n) (PyInt k1) (PyInt k2) = I k3"
proof -
  from cd have day: "1 \<le> day d" and month: "1 \<le> month d"
    by (simp_all add: calendar_date_def)
  have two: "(2::int) \<noteq> 0" by simp
  from n have n0: "n \<noteq> 0" by simp
  have x: "0 \<le> fl fp (of_int k1 / of_int n)"
    using k1 n by (intro fl_nonneg [OF fp]) simp
  have "0 \<le> (month d mod 3) mod 2" by simp
  with day have "1 \<le> day d + (month d mod 3) mod 2" by linarith
  then have "1 \<le> fl fp (of_int (day d + (month d mod 3) mod 2))"
    using fl_ge_one [OF fp] by simp
  then obtain t where t: "float_pow fp (fl fp (of_int k1 / of_int n))
      (fl fp (of_int (day d + (month d mod 3) mod 2))) = F t"
    using float_pow_nonneg_base [OF fp x, of "fl fp (of_int (day d + (month d mod 3) mod 2))"]
    by force
  have "1 \<le> fl fp (of_int (month d))"
    using fl_ge_one [OF fp] month by simp
  then obtain u where u: "float_pow fp (fl fp (of_int (month d))) (fl fp (314/100)) = F u"
    using float_pow_pos [OF fp, of "fl fp (of_int (month d))"] by force
  show ?thesis
    unfolding key3_raw_def lit_def py_add_II py_truediv_II [OF two] py_truediv_II [OF n0]
      py_pow_FI t py_add_FF py_pow_IF u py_mul_FF py_round_F
    by blast
qed


lemma key0_raw_bounds:
  assumes cd: "calendar_date d" and fp: "ieee_like fp"
  shows "\<exists>k0. key0_raw fp d = I k0 \<and> 2 * year d + 8 \<le> k0 \<and>
           (2 \<le> day d \<longrightarrow> 2 * year d + 7 * month d + 1 \<le> k0) \<and>
           (day d = 1 \<longrightarrow> k0 = 2 * year d + 8)"
proof -
  from cd have day: "1 \<le> day d" and month: "1 \<le> month d"
    by (simp_all add: calendar_date_def)
  from key0_raw_int [OF cd fp] obtain e1 e2 where
    e: "0 \<le> e1" "0 \<le> e2" "day d = 1 \<longrightarrow> e1 = 0" "2 \<le> day d \<longrightarrow> 1 \<le> e1" and
    k0: "key0_raw fp d = I (2 * year d + 7 * month d ^ nat e1 + day d ^ nat e2)"
    by blast
  define k where "k = 2 * year d + 7 * month d ^ nat e1 + day d ^ nat e2"
  have m1: "1 \<le> month d ^ nat e1" using month by simp
  have d1: "1 \<le> day d ^ nat e2" using day by simp
  have lower: "2 * year d + 8 \<le> k"
    unfolding k_def using m1 d1 by linarith
  have later: "2 * year d + 7 * month d + 1 \<le> k" if "2 \<le> day d"
  proof -
    from that e(4) have "0 < nat e1" by simp
    then have "month d \<le> month d ^ nat e1"
      using month self_le_power [of "month d" "nat e1"] by simp
    with d1 show ?thesis unfolding k_def by linarith
  qed
  have first: "k = 2 * year d + 8" if "day d = 1"
    unfolding k_def using that e(3) by simp
  from k0 lower later first show ?thesis
    unfolding k_def [symmetric] by blast
qed

lemma key_material_total:
  assumes cd: "calendar_date d" and fp: "ieee_like fp"
    and ok: "\<not> (year d = 1 \<and> month d = 12 \<and> day d = 1)"
  shows "\<exists>k0 k1 k2 k3. key_material fp d = Inr (PyInt k0, PyInt k1, PyInt k2, PyInt k3)"
proof -
  from cd have b: "1 \<le> year d" "1 \<le> month d" "month d \<le> 12" "1 \<le> day d"
    by (simp_all add: calendar_date_def)
  from key0_raw_bounds [OF cd fp] obtain k0 where
    k0: "key0_raw fp d = I k0" "2 * year d + 8 \<le> k0"
      "2 \<le> day d \<longrightarrow> 2 * year d + 7 * month d + 1 \<le> k0" "day d = 1 \<longrightarrow> k0 = 2 * year d + 8"
    by blast
  have base: "0 \<le> k0 + 1 - month d"
  proof (cases "day d = 1")
    case True
    with k0(4) ok b show ?thesis by auto
  next
    case False
    with b have "2 \<le> day d" by simp
    with k0(3) b show ?thesis by simp
  qed
  from key1_raw_int [OF fp base] obtain k1 where k1: "0 \<le> k1" "key1_raw fp d (PyInt k0) = I k1"
    by blast
  from b have m0: "0 \<le> month d" by simp
  from key2_raw_int [OF fp k1(1) m0] obtain k2 where k2: "key2_raw fp d (PyInt k0) (PyInt k1) = I k2"
    by blast
  from k0(2) b have "0 < k0" by simp
  from key3_raw_int [OF fp cd k1(1) this] obtain k3 where
    k3: "key3_raw fp d (PyInt k0) (PyInt k1) (PyInt k2) = I k3"
    by blast
  show ?thesis
    by (simp add: key_material_def k0(1) k1(2) k2 k3)
qed

lemma first_of_december_year_one_raises:
  assumes fp: "ieee_like fp"
  shows "key0_raw fp first_of_december_year_one = I 10"
    and "key1_raw fp first_of_december_year_one (PyInt 10) = Inl TypeError"
    and "key_material fp first_of_december_year_one = Inl TypeError"
proof -
  let ?d = first_of_december_year_one
  have f: "year ?d = 1" "month ?d = 12" "day ?d = 1"
    by (simp_all add: first_of_december_year_one_def)
  have cd: "calendar_date ?d" by (simp add: calendar_date_def f)
  from key0_raw_bounds [OF cd fp] show k0: "key0_raw fp ?d = I 10" by (auto simp: f)
  have y: "3/4 \<le> fl fp (8/10)" "fl fp (8/10) \<le> 7/8"
    using fl_ge_three_quarters [OF fp, of "8/10"] fl_le_seven_eighths [OF fp, of "8/10"] by simp_all
  then have "\<lfloor>fl fp (8/10)\<rfloor> = 0" by (simp add: floor_eq_iff)
  with y have "float_pow fp (- 1) (fl fp (8/10)) = Inr PyComplex"
    by (simp add: float_pow_def)
  then show k1: "key1_raw fp ?d (PyInt 10) = Inl TypeError"
    by (simp add: key1_raw_def lit_def py_eval fl_minus_one [OF fp] py_round_def f)
  from k0 k1 show "key_material fp ?d = Inl TypeError" by (simp add: key_material_def)
qed

section \<open>From key material to keys\<close>

lemma raw_seed_int:
  assumes "calendar_date d"
  shows "raw_seed fp d = I (month d ^ 2 * year d ^ nat (day d) * 2 ^ nat (day d))"
proof -
  from assms have "0 \<le> day d" by (simp add: calendar_date_def)
  then show ?thesis by (simp add: raw_seed_def py_pow_II py_mul_II)
qed

lemma generate_keys_of_material:
  assumes "calendar_date (today c)" and "key_material fp (today c) = Inr (k0, k1, k2, k3)"
  shows "generate_keys fp sha c mode =
           (if mode = ''normal'' then
              Inr (KeyList [sha (py_str fp k0), sha (py_str fp k1), sha (py_str fp k2), sha (py_str fp k3)])
            else if mode = ''shared'' then
              Inr (SharedKey (sha (sha (py_str fp k0) @ sha (py_str fp k1))))
            else Inl ValueError)"
  using assms by (simp add: generate_keys_def raw_seed_int Let_def)

lemma generate_keys_raises:
  assumes "key_material fp (today c) = Inl e" and "calendar_date (today c)"
  shows "generate_keys fp sha c mode = Inl e"
  using assms by (simp add: generate_keys_def raw_seed_int Let_def)

lemma generate_keys_total:
  assumes "calendar_date (today c)"
    and "\<not> (year (today c) = 1 \<and> month (today c) = 12 \<and> day (today c) = 1)"
    and "ieee_like fp"
  shows "\<exists>k0 k1 k2 k3.
           key_material fp (today c) = Inr (PyInt k0, PyInt k1, PyInt k2, PyInt k3) \<and>
           generate_keys fp sha c ''normal'' =
             Inr (KeyList [sha (str_int k0), sha (str_int k1), sha (str_int k2), sha (str_int k3)]) \<and>
           generate_keys fp sha c ''shared'' =
             Inr (SharedKey (sha (sha (str_int k0) @ sha (str_int k1)))) \<and>
           (\<forall>mode. mode \<noteq> ''normal'' \<longrightarrow> mode \<noteq> ''shared'' \<longrightarrow>
              generate_keys fp sha c mode = Inl ValueError)"
proof -
  from key_material_total [OF assms(1) assms(3) assms(2)] obtain k0 k1 k2 k3 where
    km: "key_material fp (today c) = Inr (PyInt k0, PyInt k1, PyInt k2, PyInt k3)"
    by blast
  show ?thesis
    using km generate_keys_of_material [OF assms(1) km, of sha] by auto
qed

lemma generate_keys_first_of_december_year_one:
  assumes "ieee_like fp" and "today c = first_of_december_year_one"
  shows "generate_keys fp sha c mode = Inl TypeError"
proof -
  have "calendar_date (today c)"
    by (simp add: assms(2) calendar_date_def first_of_december_year_one_def)
  moreover have "key_material fp (today c) = Inl TypeError"
    by (simp only: assms(2) first_of_december_year_one_raises(3) [OF assms(1)])
  ultimately show ?thesis by (rule generate_keys_raises [rotated])
qed

lemma generate_keys_normal_is_list:
  assumes "generate_keys fp sha c ''normal'' = Inr r"
  shows "\<exists>ks. r = KeyList ks"
  using assms
  by (auto simp: generate_keys_def Let_def split: sum.splits prod.splits)

lemma generate_keys_shared_is_string:
  assumes "generate_keys fp sha c ''shared'' = Inr r"
  shows "\<exists>s. r = SharedKey s"
  using assms
  by (auto simp: generate_keys_def Let_def split: sum.splits prod.splits)

section \<open>Decimal strings\<close>

lemma str_nat_digit: "n < 10 \<Longrightarrow> str_nat n = [''0123456789'' ! n]"
  by (simp add: str_nat.simps)

lemma str_nat_step: "10 \<le> n \<Longrightarrow> str_nat n = str_nat (n div 10) @ [''0123456789'' ! (n mod 10)]"
  by (subst str_nat.simps) simp

lemma digit_char_value: "n < 10 \<Longrightarrow> of_char (''0123456789'' ! n) - 48 = n"
proof -
  assume "n < 10"
  then have "n \<in> {0, 1, 2, 3, 4, 5, 6, 7, 8, 9}" by auto
  then show ?thesis by (elim insertE emptyE) simp_all
qed

lemma digit_char_zero: "n < 10 \<Longrightarrow> 0 < n \<Longrightarrow> ''0123456789'' ! n \<noteq> CHR ''0''"
proof -
  assume "n < 10" "0 < n"
  then have "n \<in> {1, 2, 3, 4, 5, 6, 7, 8, 9}" by auto
  then show ?thesis by (elim insertE emptyE) simp_all
qed

lemma str_nat_not_empty: "str_nat n \<noteq> []"
  by (subst str_nat.simps) simp

lemma decimal_value_append:
  "decimal_value (s @ [c]) = 10 * decimal_value s + (of_char c - 48)"
  by (simp add: decimal_value_def)

lemma decimal_value_str_nat: "decimal_value (str_nat n) = n"
proof (induction n rule: str_nat.induct)
  case (1 n)
  show ?case
  proof (cases "n < 10")
    case True
    then show ?thesis
      by (simp add: str_nat_digit decimal_value_def digit_char_value)
  next
    case False
    then have step: "str_nat n = str_nat (n div 10) @ [''0123456789'' ! (n mod 10)]"
      by (simp add: str_nat_step)
    from False "1.IH" have "decimal_value (str_nat (n div 10)) = n div 10" by simp
    then show ?thesis
      by (simp add: step decimal_value_append digit_char_value)
  qed
qed

lemma str_nat_digits: "set (str_nat n) \<subseteq> set ''0123456789''"
proof (induction n rule: str_nat.induct)
  case (1 n)
  have d: "''0123456789'' ! k \<in> set ''0123456789''" if "k < 10" for k
    using that by (intro nth_mem) simp
  show ?case
  proof (cases "n < 10")
    case True
    with d [of n] show ?thesis by (simp only: str_nat_digit) simp
  next
    case False
    have "n mod 10 < 10" by simp
    with False "1.IH" d [of "n mod 10"] show ?thesis
      by (simp only: str_nat_step [of n]) simp
  qed
qed

lemma str_nat_no_leading_zero: "0 < n \<Longrightarrow> hd (str_nat n) \<noteq> CHR ''0''"
proof (induction n rule: str_nat.induct)
  case (1 n)
  show ?case
  proof (cases "n < 10")
    case True
    with "1.prems" have "''0123456789'' ! n \<noteq> CHR ''0''" by (intro digit_char_zero)
    with True show ?thesis by (simp add: str_nat_digit)
  next
    case False
    then have "0 < n div 10" by simp
    with False "1.IH" have "hd (str_nat (n div 10)) \<noteq> CHR ''0''" by simp
    with False show ?thesis
      by (simp add: str_nat_step [of n] str_nat_not_empty)
  qed
qed

lemma str_int_canonical:
  "str_int n = (if n < 0 then ''-'' else []) @ str_nat (nat \<bar>n\<bar>)"
  "decimal_value (str_nat (nat \<bar>n\<bar>)) = nat \<bar>n\<bar>"
  "set (str_nat (nat \<bar>n\<bar>)) \<subseteq> set ''0123456789''"
  "n \<noteq> 0 \<Longrightarrow> hd (str_nat (nat \<bar>n\<bar>)) \<noteq> CHR ''0''"
  "str_int 0 = ''0''"
proof -
  show "str_int n = (if n < 0 then ''-'' else []) @ str_nat (nat \<bar>n\<bar>)"
    by (simp add: str_int_def)
  show "decimal_value (str_nat (nat \<bar>n\<bar>)) = nat \<bar>n\<bar>"
    by (rule decimal_value_str_nat)
  show "set (str_nat (nat \<bar>n\<bar>)) \<subseteq> set ''0123456789''"
    by (rule str_nat_digits)
  show "hd (str_nat (nat \<bar>n\<bar>)) \<noteq> CHR ''0''" if "n \<noteq> 0"
    using that by (intro str_nat_no_leading_zero) simp
  show "str_int 0 = ''0''"
    by (simp add: str_int_def str_nat_digit)
qed

lemma str_nat_no_dash: "hd (str_nat k) \<noteq> CHR ''-''"
proof -
  have "hd (str_nat k) \<in> set (str_nat k)" by (simp add: str_nat_not_empty)
  with str_nat_digits [of k] have "hd (str_nat k) \<in> set ''0123456789''" by blast
  then show ?thesis by auto
qed

lemma str_nat_inj: "str_nat m = str_nat n \<Longrightarrow> m = n"
proof -
  assume "str_nat m = str_nat n"
  then have "decimal_value (str_nat m) = decimal_value (str_nat n)" by simp
  then show ?thesis by (simp only: decimal_value_str_nat)
qed

lemma str_int_inj: "str_int m = str_int n \<Longrightarrow> m = n"
proof -
  assume eq: "str_int m = str_int n"
  have sign: "(hd (str_int k) = CHR ''-'') = (k < 0)" for k
    using str_nat_no_dash [of "nat k"] by (simp add: str_int_def)
  from eq have "hd (str_int m) = hd (str_int n)" by simp
  with sign [of m] sign [of n] have same: "(m < 0) = (n < 0)" by simp
  show ?thesis
  proof (cases "m < 0")
    case True
    with same have n: "n < 0" by simp
    with True eq have "str_nat (nat (- m)) = str_nat (nat (- n))" by (simp add: str_int_def)
    then have "nat (- m) = nat (- n)" by (rule str_nat_inj)
    with True n show ?thesis by simp
  next
    case False
    with same have n: "\<not> n < 0" by simp
    with False eq have "str_nat (nat m) = str_nat (nat n)" by (simp add: str_int_def)
    then have "nat m = nat n" by (rule str_nat_inj)
    with False n show ?thesis by simp
  qed
qed

section \<open>The exact host\<close>

lemma ieee_like_exact_fpu: "ieee_like exact_fpu"
  by (simp add: ieee_like_def exact_fpu_def mono_def)

lemma round_half_even_near:
  assumes "0 \<le> q" "q < 1/2"
  shows "round_half_even (of_int n + q) = n"
proof -
  from assms have "\<lfloor>of_int n + q\<rfloor> = n" by (simp add: floor_eq_iff)
  with assms show ?thesis by (simp add: round_half_even_def Let_def)
qed

lemma round_half_even_of_int: "round_half_even (of_int n) = n"
  using round_half_even_near [of 0 n] by simp

lemma golden_fields: "year golden_date = 7977" "month golden_date = 1" "day golden_date = 7"
  by (simp_all add: golden_date_def)

lemma exact_fl: "fl exact_fpu x = x"
  by (simp add: exact_fpu_def)

lemma exact_pow: "libm_pow exact_fpu x y = x powr y"
  by (simp add: exact_fpu_def)

lemma golden_key0: "key0_raw exact_fpu golden_date = I 32768"
proof -
  let ?fp = exact_fpu
  have "round_half_even (of_int 7 / (5/2)) = round_half_even (of_int 2 + 4/5)" by simp
  also have "\<dots> = 3" by (simp add: round_half_even_def Let_def)
  finally have s1: "py_round (py_truediv ?fp (I 7) (F (5/2))) = I 3"
    by (simp add: py_truediv_IF py_round_F exact_fl)
  have "round_half_even (of_int 7 / of_int 2) = 4" by (simp add: round_half_even_def Let_def)
  then have s2: "py_round (py_truediv ?fp (I 7) (I 2)) = I 4"
    by (simp add: py_truediv_II py_round_F exact_fl)
  have big: "(1::real) < of_int 7 powr (6/10)"
    by simp
  then have p1: "float_pow ?fp (of_int 7) (6/10) = F (of_int 7 powr (6/10))"
    by (simp add: float_pow_def exact_pow)
  have small: "(1/2 :: real) powr (of_int 7 powr (6/10)) < (1/2) powr 1"
    using big by (intro powr_less_mono') simp_all
  have p2: "float_pow ?fp (1/2) (of_int 7 powr (6/10)) = F ((1/2) powr (of_int 7 powr (6/10)))"
    using big by (simp add: float_pow_def exact_pow)
  have "round_half_even (of_int 1 + (1/2) powr (of_int 7 powr (6/10))) = 1"
    using small by (intro round_half_even_near) simp_all
  moreover have "(7::int) mod 3 = 1" by simp
  ultimately have s3: "py_round (py_add ?fp (I (7 mod 3))
        (py_pow ?fp (F (1/2)) (py_pow ?fp (I 7) (lit ?fp (6/10))))) = I 1"
    by (simp only: lit_def py_pow_IF py_pow_FF py_add_IF py_round_F exact_fl p1 p2)
  show ?thesis
    unfolding key0_raw_def golden_fields s1 s2 s3 by (simp add: py_eval)
qed


lemma powr_32768: "(32768::real) powr (8/10) = 4096"
proof -
  have "(32768::real) = 2 powr 15" by simp
  then have "(32768::real) powr (8/10) = (2 powr 15) powr (8/10)" by simp
  also have "\<dots> = 2 powr 12" by (simp only: powr_powr) simp
  also have "\<dots> = 4096" by simp
  finally show ?thesis .
qed

lemma powr_4096: "(4096::real) powr (1/2) = 64"
proof -
  have "(4096::real) powr (1/2) = sqrt 4096" by (simp add: powr_half_sqrt)
  also have "\<dots> = sqrt (64\<^sup>2)" by simp
  also have "\<dots> = 64" by (simp only: real_sqrt_abs) 
  finally show ?thesis .
qed

lemma golden_key1: "key1_raw exact_fpu golden_date (PyInt 32768) = I 4096"
proof -
  have "float_pow exact_fpu (of_int (32768 + 1 - 1)) (8/10) = F 4096"
    using powr_32768 by (simp add: float_pow_def exact_pow)
  then show ?thesis
    unfolding key1_raw_def golden_fields lit_def py_add_II py_sub_II py_pow_IF exact_fl py_round_F
    using round_half_even_of_int [of 4096] by (simp add: py_round_F)
qed

lemma golden_key2: "key2_raw exact_fpu golden_date (PyInt 32768) (PyInt 4096) = I 260964414"
proof -
  have "float_pow exact_fpu (of_int 4096) (1/2) = F 64"
    using powr_4096 by (simp add: float_pow_def exact_pow)
  then show ?thesis
    unfolding key2_raw_def golden_fields py_mul_II py_pow_IF exact_fl
    using round_half_even_of_int [of 260964414] by (simp add: py_eval exact_fl)
qed

lemma golden_key3:
  "key3_raw exact_fpu golden_date (PyInt 32768) (PyInt 4096) (PyInt 260964414) = I 130484255"
proof -
  have e: "(7::int) + (1 mod 3) mod 2 = 8" by simp
  have t: "float_pow exact_fpu (of_int 4096 / of_int 32768) (of_int 8) = F (1 / 16777216)"
    by (simp add: float_pow_def exact_pow power_divide)
  have u: "float_pow exact_fpu (of_int 1) (314/100) = F 1"
    by (simp add: float_pow_def)
  have two: "(2::int) \<noteq> 0" and n: "(32768::int) \<noteq> 0" by simp_all
  have "round_half_even (of_int 130484255 + 1 / 16777216) = 130484255"
    by (intro round_half_even_near) simp_all
  then have r: "round_half_even ((of_int (4096 + 260964414) / of_int 2 + 1 / 16777216) * 1) = 130484255"
    by simp
  show ?thesis
    unfolding key3_raw_def golden_fields lit_def py_add_II py_truediv_II [OF two]
      py_truediv_II [OF n] e py_pow_FI exact_fl t py_add_FF py_pow_IF u py_mul_FF py_round_F r ..
qed

lemma golden_key_material:
  "key_material exact_fpu golden_date =
     Inr (PyInt 32768, PyInt 4096, PyInt 260964414, PyInt 130484255)"
  by (simp add: key_material_def golden_key0 golden_key1 golden_key2 golden_key3)

lemma golden_clock_ok:
  "calendar_date (today golden_clock)"
  "\<not> (year (today golden_clock) = 1 \<and> month (today golden_clock) = 12 \<and> day (today golden_clock) = 1)"
  by (simp_all add: golden_clock_def golden_date_def calendar_date_def)

lemma golden_strs:
  "str_int 32768 = ''32768''" "str_int 4096 = ''4096''"
  "str_int 260964414 = ''260964414''" "str_int 130484255 = ''130484255''"
  by (simp_all add: str_int_def str_nat_digit str_nat_step)

lemma golden_normal_keys:
  "generate_keys exact_fpu plain golden_clock ''normal'' =
     Inr (KeyList [''32768'', ''4096'', ''260964414'', ''130484255''])"
proof -
  have km: "key_material exact_fpu (today golden_clock) =
      Inr (PyInt 32768, PyInt 4096, PyInt 260964414, PyInt 130484255)"
    by (simp add: golden_clock_def golden_key_material)
  show ?thesis
    by (simp add: generate_keys_of_material [OF golden_clock_ok(1) km] plain_def golden_strs)
qed

lemma golden_shared_key:
  "generate_keys exact_fpu plain golden_clock ''shared'' = Inr (SharedKey ''327684096'')"
proof -
  have km: "key_material exact_fpu (today golden_clock) =
      Inr (PyInt 32768, PyInt 4096, PyInt 260964414, PyInt 130484255)"
    by (simp add: golden_clock_def golden_key_material)
  show ?thesis
    by (simp add: generate_keys_of_material [OF golden_clock_ok(1) km] plain_def golden_strs)
qed

section \<open>The rounding of doubles\<close>

lemma round_half_even_bounds:
  "\<lfloor>x\<rfloor> \<le> round_half_even x" "round_half_even x \<le> \<lfloor>x\<rfloor> + 1"
  by (simp_all add: round_half_even_def Let_def)

lemma round_half_even_mono:
  assumes "x \<le> y"
  shows "round_half_even x \<le> round_half_even y"
proof (cases "\<lfloor>x\<rfloor> = \<lfloor>y\<rfloor>")
  case True
  with assms have "x - of_int \<lfloor>x\<rfloor> \<le> y - of_int \<lfloor>y\<rfloor>" by simp
  with True show ?thesis by (auto simp: round_half_even_def Let_def)
next
  case False
  with assms have "\<lfloor>x\<rfloor> < \<lfloor>y\<rfloor>" using floor_mono [of x y] by linarith
  then have "\<lfloor>x\<rfloor> + 1 \<le> \<lfloor>y\<rfloor>" by simp
  with round_half_even_bounds(2) [of x] round_half_even_bounds(1) [of y] show ?thesis
    by linarith
qed

lemma round_half_even_uminus: "round_half_even (- x) = - round_half_even x"
proof (cases "x = of_int \<lfloor>x\<rfloor>")
  case True
  then obtain n :: int where "x = of_int n" ..
  then have "- x = of_int (- n)" by simp
  with \<open>x = of_int n\<close> show ?thesis by (simp only: round_half_even_of_int)
next
  case False
  then have fl: "\<lfloor>- x\<rfloor> = - \<lfloor>x\<rfloor> - 1"
    by (simp add: floor_minus ceiling_altdef)
  define f where "f = \<lfloor>x\<rfloor>"
  define r where "r = x - of_int f"
  have r': "- x - of_int (- f - 1) = 1 - r" by (simp add: r_def)
  have par: "even (- f - 1) \<longleftrightarrow> odd f" by simp
  have "round_half_even (- x) =
      (if 1 - r < 1/2 then - f - 1 else if 1/2 < 1 - r then - f - 1 + 1
       else if even (- f - 1) then - f - 1 else - f - 1 + 1)"
    unfolding round_half_even_def Let_def fl f_def [symmetric] r' ..
  moreover have "round_half_even x =
      (if r < 1/2 then f else if 1/2 < r then f + 1 else if even f then f else f + 1)"
    unfolding round_half_even_def Let_def f_def [symmetric] r_def [symmetric] ..
  ultimately show ?thesis
    unfolding par by (cases "r < 1/2"; cases "1/2 < r") simp_all
qed


lemma binary64_pos:
  assumes x: "0 < x" and e: "e = \<lfloor>log 2 x\<rfloor>"
  shows "binary64 x = of_int (round_half_even (x / 2 powr (of_int e - 52))) * 2 powr (of_int e - 52)"
    and "2 powr of_int e \<le> binary64 x" and "binary64 x \<le> 2 powr (of_int e + 1)"
proof -
  let ?u = "2 powr (of_int e - 52) :: real"
  have u: "0 < ?u" by simp
  from x e show eq: "binary64 x = of_int (round_half_even (x / ?u)) * ?u"
    by (simp add: binary64_def Let_def)
  from x e have b: "2 powr of_int e \<le> x" "x < 2 powr (of_int e + 1)"
    using floor_log_eq_powr_iff [of x 2 e] by simp_all
  have lo: "2 powr of_int e / ?u = of_int (2 ^ 52)"
    by (simp add: powr_diff)
  have hi: "2 powr (of_int e + 1) / ?u = of_int (2 ^ 53)"
    by (simp add: powr_diff powr_add)
  from b(1) u have "2 powr of_int e / ?u \<le> x / ?u" by (simp add: divide_right_mono)
  then have "round_half_even (of_int (2 ^ 52)) \<le> round_half_even (x / ?u)"
    unfolding lo by (rule round_half_even_mono)
  then have l: "2 ^ 52 \<le> round_half_even (x / ?u)"
    by (simp only: round_half_even_of_int)
  from b(2) u have "x / ?u \<le> 2 powr (of_int e + 1) / ?u" by (simp add: divide_right_mono)
  then have "round_half_even (x / ?u) \<le> round_half_even (of_int (2 ^ 53))"
    unfolding hi by (rule round_half_even_mono)
  then have h: "round_half_even (x / ?u) \<le> 2 ^ 53"
    by (simp only: round_half_even_of_int)
  from l have "of_int (2 ^ 52) * ?u \<le> of_int (round_half_even (x / ?u)) * ?u"
    using u by (intro mult_right_mono) (simp_all only: of_int_le_iff less_imp_le)
  moreover from lo u have "of_int (2 ^ 52) * ?u = 2 powr of_int e"
    by (simp add: field_simps)
  ultimately show "2 powr of_int e \<le> binary64 x" by (simp only: eq)
  from h have "of_int (round_half_even (x / ?u)) * ?u \<le> of_int (2 ^ 53) * ?u"
    using u by (intro mult_right_mono) (simp_all only: of_int_le_iff less_imp_le)
  moreover from hi u have "of_int (2 ^ 53) * ?u = 2 powr (of_int e + 1)"
    by (simp add: field_simps)
  ultimately show "binary64 x \<le> 2 powr (of_int e + 1)" by (simp only: eq)
qed

lemma binary64_mono_pos:
  assumes "0 < x" "x \<le> y"
  shows "binary64 x \<le> binary64 y"
proof -
  from assms have y: "0 < y" by simp
  define ex where "ex = \<lfloor>log 2 x\<rfloor>"
  define ey where "ey = \<lfloor>log 2 y\<rfloor>"
  from assms y have "log 2 x \<le> log 2 y" by simp
  then have le: "ex \<le> ey" unfolding ex_def ey_def by (rule floor_mono)
  show ?thesis
  proof (cases "ex = ey")
    case True
    let ?u = "2 powr (of_int ey - 52) :: real"
    have u: "0 < ?u" by simp
    from assms(2) u have "x / ?u \<le> y / ?u" by (simp add: divide_right_mono)
    then have "round_half_even (x / ?u) \<le> round_half_even (y / ?u)"
      by (rule round_half_even_mono)
    then have "of_int (round_half_even (x / ?u)) * ?u \<le> of_int (round_half_even (y / ?u)) * ?u"
      using u by (intro mult_right_mono) (simp_all only: of_int_le_iff less_imp_le)
    then show ?thesis
      using binary64_pos(1) [OF assms(1) ex_def] binary64_pos(1) [OF y ey_def] True by simp
  next
    case False
    with le have "ex + 1 \<le> ey" by simp
    then have "(of_int ex + 1 :: real) \<le> of_int ey" by linarith
    then have "(2::real) powr (of_int ex + 1) \<le> 2 powr of_int ey" by simp
    with binary64_pos(3) [OF assms(1) ex_def] binary64_pos(2) [OF y ey_def]
    show ?thesis by linarith
  qed
qed

lemma binary64_zero: "binary64 0 = 0"
  by (simp add: binary64_def)

lemma binary64_uminus: "binary64 (- x) = - binary64 x"
  by (simp add: binary64_def Let_def round_half_even_uminus)

lemma binary64_positive: "0 < x \<Longrightarrow> 0 < binary64 x"
proof -
  assume x: "0 < x"
  have "(0::real) < 2 powr of_int \<lfloor>log 2 x\<rfloor>" by simp
  with binary64_pos(2) [OF x refl] show ?thesis by linarith
qed

lemma binary64_mono: "mono binary64"
proof (rule monoI)
  fix x y :: real
  assume le: "x \<le> y"
  consider "0 < x" | "x = 0" | "x < 0" "y < 0" | "x < 0" "0 \<le> y" by linarith
  then show "binary64 x \<le> binary64 y"
  proof cases
    case 1
    then show ?thesis using le by (rule binary64_mono_pos)
  next
    case 2
    show ?thesis
    proof (cases "y = 0")
      case True
      with 2 show ?thesis by simp
    next
      case False
      with 2 le have "0 < y" by simp
      with 2 binary64_positive [of y] show ?thesis by (simp add: binary64_zero)
    qed
  next
    case 3
    then have "0 < - y" "- y \<le> - x" using le by simp_all
    then have "binary64 (- y) \<le> binary64 (- x)" by (rule binary64_mono_pos)
    then show ?thesis by (simp add: binary64_uminus)
  next
    case 4
    then have "0 < - x" by simp
    then have "0 < binary64 (- x)" by (rule binary64_positive)
    then have neg: "binary64 x < 0" by (simp add: binary64_uminus)
    have "0 \<le> binary64 y"
    proof (cases "y = 0")
      case True
      then show ?thesis by (simp add: binary64_zero)
    next
      case False
      with 4 have "0 < y" by simp
      then show ?thesis using binary64_positive [of y] by simp
    qed
    with neg show ?thesis by linarith
  qed
qed


lemma binary64_exact_pos:
  assumes k: "0 < k" "k \<le> 2 ^ 53"
  shows "binary64 (of_int k / 8) = of_int k / 8"
proof -
  let ?x = "of_int k / 8 :: real"
  define e where "e = \<lfloor>log 2 ?x\<rfloor>"
  let ?u = "2 powr (of_int e - 52) :: real"
  from k have x: "0 < ?x" by simp
  have u: "0 < ?u" by simp
  from x e_def have b: "2 powr of_int e \<le> ?x" "?x < 2 powr (of_int e + 1)"
    using floor_log_eq_powr_iff [of ?x 2 e] by simp_all
  have p50: "(2::real) powr of_int 50 = 2 ^ 50" by (simp add: powr_real_of_int)
  from k(2) have "(of_int k :: real) \<le> of_int (2 ^ 53)" by (simp only: of_int_le_iff)
  then have "?x \<le> 2 ^ 50" by simp
  with b(1) have "(2::real) powr of_int e \<le> 2 ^ 50" by linarith
  then have "(2::real) powr of_int e \<le> 2 powr of_int 50" by (simp only: p50)
  then have "(of_int e :: real) \<le> of_int 50" by (simp only: powr_le_cancel_iff one_less_numeral_iff semiring_norm)
  then have e50: "e \<le> 50" by (simp only: of_int_le_iff)
  have "\<exists>n :: int. ?x / ?u = of_int n"
  proof (cases "e \<le> 49")
    case True
    then have "(2::real) powr of_int (49 - e) = 2 ^ nat (49 - e)"
      using powr_real_of_int [of 2 "49 - e"] by simp
    moreover have "?x / ?u = of_int k * 2 powr of_int (49 - e)"
      by (simp add: powr_diff field_simps)
    ultimately have "?x / ?u = of_int (k * 2 ^ nat (49 - e))" by simp
    then show ?thesis ..
  next
    case False
    with e50 have e: "e = 50" by simp
    with b(1) p50 have "(2::real) ^ 50 \<le> ?x" by simp
    then have "(of_int (2 ^ 53) :: real) \<le> of_int k" by simp
    then have "2 ^ 53 \<le> k" by (simp only: of_int_le_iff)
    with k(2) have "k = 2 ^ 53" by simp
    with e have "?x / ?u = of_int (2 ^ 52)" by (simp add: powr_minus)
    then show ?thesis ..
  qed
  then obtain n :: int where n: "?x / ?u = of_int n" ..
  from binary64_pos(1) [OF x e_def] have "binary64 ?x = of_int (round_half_even (?x / ?u)) * ?u" .
  also have "\<dots> = of_int n * ?u" by (simp only: n round_half_even_of_int)
  also have "\<dots> = (?x / ?u) * ?u" by (simp only: n)
  also have "\<dots> = ?x" using u by simp
  finally show ?thesis .
qed

lemma binary64_exact:
  assumes "\<bar>k\<bar> \<le> 2 ^ 53"
  shows "binary64 (of_int k / 8) = of_int k / 8"
proof -
  consider "0 < k" | "k = 0" | "k < 0" by linarith
  then show ?thesis
  proof cases
    case 1
    with assms show ?thesis by (intro binary64_exact_pos) simp_all
  next
    case 2
    then show ?thesis by (simp add: binary64_zero)
  next
    case 3
    with assms have "binary64 (of_int (- k) / 8) = of_int (- k) / 8"
      by (intro binary64_exact_pos) simp_all
    then have "binary64 (- (of_int k / 8)) = - (of_int k / 8)" by simp
    then show ?thesis by (simp only: binary64_uminus neg_equal_iff_equal)
  qed
qed

lemma ieee_like_binary64:
  assumes "\<And>x y. 0 < x \<Longrightarrow> 0 \<le> pw x y"
  shows "ieee_like \<lparr>fl = binary64, libm_pow = pw, repr = rp\<rparr>"
  using assms by (simp add: ieee_like_def binary64_mono binary64_exact)

section \<open>The prompt\<close>

lemma prompt_body_of_keys:
  assumes "generate_keys fp sha c1 ''normal'' = Inr (KeyList ks)"
    and "generate_keys fp sha c2 ''shared'' = Inr (SharedKey s)"
  shows "prompt_body fp sha c1 c2 u =
           Inr (if u \<in> set ks then (Return ''gpt-3.5-turbo'', [])
                else if u = s then
                  (Return ''gpt-4o-mini'', [''Shared key accepted. Switching to GPT-4o Mini.''])
                else (Again, [Fore_RED @ ''Incorrect Key!'']))"
  by (simp add: prompt_body_def assms)

lemma prompt_body_returns:
  assumes "prompt_body fp sha c1 c2 u = Inr (v, printed)"
  shows "\<exists>ks s. generate_keys fp sha c1 ''normal'' = Inr (KeyList ks) \<and>
           generate_keys fp sha c2 ''shared'' = Inr (SharedKey s) \<and>
           (v, printed) =
             (if u \<in> set ks then (Return ''gpt-3.5-turbo'', [])
              else if u = s then
                (Return ''gpt-4o-mini'', [''Shared key accepted. Switching to GPT-4o Mini.''])
              else (Again, [Fore_RED @ ''Incorrect Key!'']))"
proof -
  from assms obtain n where n: "generate_keys fp sha c1 ''normal'' = Inr n"
    by (cases "generate_keys fp sha c1 ''normal''") (simp_all add: prompt_body_def)
  with assms obtain sh where sh: "generate_keys fp sha c2 ''shared'' = Inr sh"
    by (cases "generate_keys fp sha c2 ''shared''") (simp_all add: prompt_body_def)
  from generate_keys_normal_is_list [OF n] obtain ks where ks: "n = KeyList ks" by blast
  from generate_keys_shared_is_string [OF sh] obtain s where s: "sh = SharedKey s" by blast
  from n sh ks s have *: "generate_keys fp sha c1 ''normal'' = Inr (KeyList ks)"
    "generate_keys fp sha c2 ''shared'' = Inr (SharedKey s)" by simp_all
  from assms prompt_body_of_keys [OF *, of u] show ?thesis
    using * by (intro exI [of _ ks] exI [of _ s]) simp
qed

lemma prompt_for_key_return:
  assumes major: "prompt_for_key fp sha keyboard clk i out = Some (Inr model, out')"
  shows "\<exists>j u ks. i \<le> j \<and> keyboard j = Some u \<and>
           generate_keys fp sha (clk (2 * j)) ''normal'' = Inr (KeyList ks) \<and>
           (model = ''gpt-3.5-turbo'' \<and> u \<in> set ks \<or>
            model = ''gpt-4o-mini'' \<and> u \<notin> set ks \<and>
            generate_keys fp sha (clk (2 * j + 1)) ''shared'' = Inr (SharedKey u))"
proof -
  let ?Q = "\<lambda>(fp :: fpu) (sha :: string \<Rightarrow> string) (keyboard :: nat \<Rightarrow> string option)
      (clk :: nat \<Rightarrow> clock) (i :: nat) (out :: string list) (r :: string res \<times> string list).
    \<forall>model out'. r = (Inr model, out') \<longrightarrow>
      (\<exists>j u ks. i \<le> j \<and> keyboard j = Some u \<and>
         generate_keys fp sha (clk (2 * j)) ''normal'' = Inr (KeyList ks) \<and>
         (model = ''gpt-3.5-turbo'' \<and> u \<in> set ks \<or>
          model = ''gpt-4o-mini'' \<and> u \<notin> set ks \<and>
          generate_keys fp sha (clk (2 * j + 1)) ''shared'' = Inr (SharedKey u)))"
  have "?Q fp sha keyboard clk i out (Inr model, out')"
  proof (rule prompt_for_key.raw_induct [where P = ?Q, OF _ major])
    fix loop and fp :: fpu and sha :: "string \<Rightarrow> string" and keyboard :: "nat \<Rightarrow> string option"
      and clk :: "nat \<Rightarrow> clock" and i :: nat and out :: "string list"
      and r :: "string res \<times> string list"
    assume IH: "\<And>fp sha keyboard clk i out r. loop fp sha keyboard clk i out = Some r \<Longrightarrow>
        ?Q fp sha keyboard clk i out r"
    assume step: "(case keyboard i of
        None \<Rightarrow> Some (Inl EOFError, out @ [''Key: ''])
      | Some user_key \<Rightarrow>
          (case prompt_body fp sha (clk (2 * i)) (clk (2 * i + 1)) user_key of
             Inl e \<Rightarrow> Some (Inl e, out @ [''Key: ''])
           | Inr (Return model, printed) \<Rightarrow> Some (Inr model, out @ ''Key: '' # printed)
           | Inr (Again, printed) \<Rightarrow>
               loop fp sha keyboard clk (i + 1) (out @ ''Key: '' # printed))) = Some r"
    show "?Q fp sha keyboard clk i out r"
    proof (intro allI impI)
      fix model out'
      assume r: "r = (Inr model, out')"
      from step r obtain u where u: "keyboard i = Some u"
        by (cases "keyboard i") simp_all
      let ?body = "prompt_body fp sha (clk (2 * i)) (clk (2 * i + 1)) u"
      from step r u obtain v printed where body: "?body = Inr (v, printed)"
        by (cases ?body) auto
      from prompt_body_returns [OF body] obtain ks s where
        n: "generate_keys fp sha (clk (2 * i)) ''normal'' = Inr (KeyList ks)" and
        s: "generate_keys fp sha (clk (2 * i + 1)) ''shared'' = Inr (SharedKey s)" and
        v: "(v, printed) =
              (if u \<in> set ks then (Return ''gpt-3.5-turbo'', [])
               else if u = s then
                 (Return ''gpt-4o-mini'', [''Shared key accepted. Switching to GPT-4o Mini.''])
               else (Again, [Fore_RED @ ''Incorrect Key!'']))"
        by (elim exE conjE)
      show "\<exists>j u ks. i \<le> j \<and> keyboard j = Some u \<and>
                generate_keys fp sha (clk (2 * j)) ''normal'' = Inr (KeyList ks) \<and>
                (model = ''gpt-3.5-turbo'' \<and> u \<in> set ks \<or>
                 model = ''gpt-4o-mini'' \<and> u \<notin> set ks \<and>
                 generate_keys fp sha (clk (2 * j + 1)) ''shared'' = Inr (SharedKey u))"
      proof (cases v)
        case (Return m)
        with step r u body have m: "m = model" by simp
        from v Return m have "model = ''gpt-3.5-turbo'' \<and> u \<in> set ks \<or>
            model = ''gpt-4o-mini'' \<and> u \<notin> set ks \<and> u = s"
          by (auto split: if_splits)
        with u n s show ?thesis
          by (intro exI [of _ i] exI [of _ u] exI [of _ ks]) auto
      next
        case Again
        with step u body have
          "loop fp sha keyboard clk (i + 1) (out @ ''Key: '' # printed) = Some r" by simp
        from IH [OF this] r have "\<exists>j u ks. i + 1 \<le> j \<and> keyboard j = Some u \<and>
            generate_keys fp sha (clk (2 * j)) ''normal'' = Inr (KeyList ks) \<and>
            (model = ''gpt-3.5-turbo'' \<and> u \<in> set ks \<or>
             model = ''gpt-4o-mini'' \<and> u \<notin> set ks \<and>
             generate_keys fp sha (clk (2 * j + 1)) ''shared'' = Inr (SharedKey u))"
          by simp
        then obtain j u' ks' where
          j: "i + 1 \<le> j" "keyboard j = Some u'"
          "generate_keys fp sha (clk (2 * j)) ''normal'' = Inr (KeyList ks')"
          "model = ''gpt-3.5-turbo'' \<and> u' \<in> set ks' \<or>
           model = ''gpt-4o-mini'' \<and> u' \<notin> set ks' \<and>
           generate_keys fp sha (clk (2 * j + 1)) ''shared'' = Inr (SharedKey u')"
          by (elim exE conjE)
        from j(1) have "i \<le> j" by simp
        with j(2-4) show ?thesis
          by (intro exI [of _ j] exI [of _ u'] exI [of _ ks'] conjI)
      qed
    qed
  qed
  then show ?thesis by simp
qed

lemma prompt_for_key_again:
  assumes "keyboard i = Some u"
    and "generate_keys fp sha (clk (2 * i)) ''normal'' = Inr (KeyList ks)"
    and "generate_keys fp sha (clk (2 * i + 1)) ''shared'' = Inr (SharedKey s)"
    and "u \<notin> set ks" and "u \<noteq> s"
  shows "prompt_for_key fp sha keyboard clk i out =
           prompt_for_key fp sha keyboard clk (i + 1)
             (out @ [''Key: '', Fore_RED @ ''Incorrect Key!''])"
proof -
  have "prompt_body fp sha (clk (2 * i)) (clk (2 * i + 1)) u =
      Inr (Again, [Fore_RED @ ''Incorrect Key!''])"
    by (simp only: prompt_body_of_keys [OF assms(2,3)] assms(4,5) if_False)
  then show ?thesis
    by (subst prompt_for_key.simps) (simp only: assms(1) option.case sum.case prod.case verdict.case)
qed

lemma prompt_for_key_end_of_input:
  assumes "keyboard i = None"
  shows "prompt_for_key fp sha keyboard clk i out = Some (Inl EOFError, out @ [''Key: ''])"
  by (subst prompt_for_key.simps) (simp add: assms)

lemma prompt_for_key_never_returns_on_wrong_keys:
  assumes wrong: "\<And>j. i \<le> j \<Longrightarrow> \<exists>u ks s. keyboard j = Some u \<and>
      generate_keys fp sha (clk (2 * j)) ''normal'' = Inr (KeyList ks) \<and>
      generate_keys fp sha (clk (2 * j + 1)) ''shared'' = Inr (SharedKey s) \<and>
      u \<notin> set ks \<and> u \<noteq> s"
  shows "prompt_for_key fp sha keyboard clk i out = None"
proof (rule ccontr)
  assume "prompt_for_key fp sha keyboard clk i out \<noteq> None"
  then obtain r where major: "prompt_for_key fp sha keyboard clk i out = Some r" by blast
  let ?wrong = "\<lambda>(fp :: fpu) (sha :: string \<Rightarrow> string) (keyboard :: nat \<Rightarrow> string option)
      (clk :: nat \<Rightarrow> clock) (i :: nat).
      \<forall>j\<ge>i. \<exists>u ks s. keyboard j = Some u \<and>
        generate_keys fp sha (clk (2 * j)) ''normal'' = Inr (KeyList ks) \<and>
        generate_keys fp sha (clk (2 * j + 1)) ''shared'' = Inr (SharedKey s) \<and>
        u \<notin> set ks \<and> u \<noteq> s"
  let ?Q = "\<lambda>(fp :: fpu) (sha :: string \<Rightarrow> string) (keyboard :: nat \<Rightarrow> string option)
      (clk :: nat \<Rightarrow> clock) (i :: nat) (out :: string list) (r :: string res \<times> string list).
      \<not> ?wrong fp sha keyboard clk i"
  have "?Q fp sha keyboard clk i out r"
  proof (rule prompt_for_key.raw_induct [where P = ?Q, OF _ major])
    fix loop and fp :: fpu and sha :: "string \<Rightarrow> string" and keyboard :: "nat \<Rightarrow> string option"
      and clk :: "nat \<Rightarrow> clock" and i :: nat and out :: "string list"
      and r :: "string res \<times> string list"
    assume IH: "\<And>fp sha keyboard clk i out r. loop fp sha keyboard clk i out = Some r \<Longrightarrow>
        ?Q fp sha keyboard clk i out r"
    assume step: "(case keyboard i of
        None \<Rightarrow> Some (Inl EOFError, out @ [''Key: ''])
      | Some user_key \<Rightarrow>
          (case prompt_body fp sha (clk (2 * i)) (clk (2 * i + 1)) user_key of
             Inl e \<Rightarrow> Some (Inl e, out @ [''Key: ''])
           | Inr (Return model, printed) \<Rightarrow> Some (Inr model, out @ ''Key: '' # printed)
           | Inr (Again, printed) \<Rightarrow>
               loop fp sha keyboard clk (i + 1) (out @ ''Key: '' # printed))) = Some r"
    show "?Q fp sha keyboard clk i out r"
    proof
      assume w: "?wrong fp sha keyboard clk i"
      then obtain u ks s where u: "keyboard i = Some u"
        and n: "generate_keys fp sha (clk (2 * i)) ''normal'' = Inr (KeyList ks)"
        and s: "generate_keys fp sha (clk (2 * i + 1)) ''shared'' = Inr (SharedKey s)"
        and no: "u \<notin> set ks" "u \<noteq> s"
        by (elim allE [of _ i] impE exE conjE) simp
      have "prompt_body fp sha (clk (2 * i)) (clk (2 * i + 1)) u =
          Inr (Again, [Fore_RED @ ''Incorrect Key!''])"
        by (simp only: prompt_body_of_keys [OF n s] no if_False)
      with step u have "loop fp sha keyboard clk (i + 1)
          (out @ ''Key: '' # [Fore_RED @ ''Incorrect Key!'']) = Some r"
        by simp
      from IH [OF this] have "\<not> ?wrong fp sha keyboard clk (i + 1)" .
      moreover from w have "?wrong fp sha keyboard clk (i + 1)" by simp
      ultimately show False by (rule notE)
    qed
  qed
  moreover from wrong have "?wrong fp sha keyboard clk i" by simp
  ultimately show False by (rule notE)
qed

section \<open>The formulas and the assignments\<close>

lemma float_pow_fpow:
  assumes "0 \<le> x" and "x = 0 \<Longrightarrow> 0 < y"
  shows "float_pow fp x y = F (fpow fp x y)"
proof (cases "x = 0")
  case True
  with assms(2) show ?thesis by (simp add: float_pow_def fpow_def)
next
  case False
  with assms(1) have "0 < x" by simp
  then show ?thesis by (simp add: float_pow_def fpow_def Let_def)
qed

lemma fpow_nonneg:
  assumes "ieee_like fp" "0 \<le> x"
  shows "0 \<le> fpow fp x y"
proof (cases "x = 0")
  case True
  then show ?thesis by (simp add: fpow_def)
next
  case False
  with assms(2) have "0 < x" by simp
  with assms(1) have "0 \<le> libm_pow fp x y" unfolding ieee_like_def by blast
  then show ?thesis by (simp add: fpow_def)
qed

lemma key0_raw_formula:
  assumes cd: "calendar_date d" and fp: "ieee_like fp"
  shows "key0_raw fp d = I (formula_key0 fp d)"
proof -
  from cd have day: "1 \<le> day d" by (simp add: calendar_date_def)
  have fday: "1 \<le> fl fp (of_int (day d))"
    using fl_ge_one [OF fp] day by simp
  define e1 where "e1 = round_half_even (fl fp (fl fp (of_int (day d)) / (5/2)))"
  have e1: "0 \<le> e1"
    unfolding e1_def using fday by (intro round_half_even_nonneg fl_nonneg [OF fp]) simp
  have s1: "py_round (py_truediv fp (I (day d)) (F (5/2))) = I e1"
    by (simp add: py_eval e1_def)
  define e2 where "e2 = round_half_even (fl fp (of_int (day d) / 2))"
  have e2: "0 \<le> e2"
    unfolding e2_def using day by (intro round_half_even_nonneg fl_nonneg [OF fp]) simp
  have s2: "py_round (py_truediv fp (I (day d)) (I 2)) = I e2"
    by (simp add: py_eval e2_def)
  define r where "r = fpow fp (fl fp (of_int (day d))) (fl fp (6/10))"
  have r: "float_pow fp (fl fp (of_int (day d))) (fl fp (6/10)) = F r"
    unfolding r_def using fday by (intro float_pow_fpow) simp_all
  define p where "p = fpow fp (1/2) r"
  have p: "float_pow fp (1/2) r = F p"
    unfolding p_def by (intro float_pow_fpow) simp_all
  have p0: "0 \<le> p" unfolding p_def by (intro fpow_nonneg [OF fp]) simp
  define e3 where "e3 = round_half_even (fl fp (fl fp (of_int (day d mod 3)) + p))"
  have "0 \<le> fl fp (of_int (day d mod 3))"
    by (intro fl_nonneg [OF fp]) simp
  then have e3: "0 \<le> e3"
    unfolding e3_def using p0 by (intro round_half_even_nonneg fl_nonneg [OF fp]) simp
  have s3: "py_round (py_add fp (I (day d mod 3))
              (py_pow fp (F (1/2)) (py_pow fp (I (day d)) (lit fp (6/10))))) = I e3"
    unfolding lit_def py_pow_IF r py_pow_FF p py_add_IF py_round_F e3_def ..
  have "key0_raw fp d = I (2 * year d + 7 * month d ^ nat e1 + day d ^ nat (e2 + e3))"
    unfolding key0_raw_def s1 s2 s3 using e1 e2 e3 by (simp add: py_eval)
  also have "2 * year d + 7 * month d ^ nat e1 + day d ^ nat (e2 + e3) = formula_key0 fp d"
    unfolding formula_key0_def e1_def e2_def e3_def p_def r_def ..
  finally show ?thesis .
qed

lemma key1_raw_formula:
  assumes fp: "ieee_like fp" and base: "0 \<le> k0 + 1 - month d"
  shows "key1_raw fp d (PyInt k0) = I (formula_key1 fp d k0)"
    and "0 \<le> formula_key1 fp d k0"
proof -
  have x: "0 \<le> fl fp (of_int (k0 + 1 - month d))"
    using fl_nonneg [OF fp] base by simp
  have y: "0 < fl fp (8/10)"
    using fl_ge_three_quarters [OF fp, of "8/10"] by simp
  have "float_pow fp (fl fp (of_int (k0 + 1 - month d))) (fl fp (8/10)) =
      F (fpow fp (fl fp (of_int (k0 + 1 - month d))) (fl fp (8/10)))"
    using x y by (intro float_pow_fpow)
  then show "key1_raw fp d (PyInt k0) = I (formula_key1 fp d k0)"
    unfolding key1_raw_def lit_def py_add_II py_sub_II py_pow_IF py_round_F formula_key1_def
    by (simp only: py_round_F)
  show "0 \<le> formula_key1 fp d k0"
    unfolding formula_key1_def by (intro round_half_even_nonneg fpow_nonneg [OF fp] x)
qed

lemma key2_raw_formula:
  assumes fp: "ieee_like fp" and k1: "0 \<le> k1" and m: "0 \<le> month d"
  shows "key2_raw fp d (PyInt k0) (PyInt k1) = I (formula_key2 fp d k0 k1)"
proof -
  have x: "0 \<le> fl fp (of_int k1)"
    using fl_nonneg [OF fp] k1 by simp
  have q: "float_pow fp (fl fp (of_int k1)) (1/2) = F (fpow fp (fl fp (of_int k1)) (1/2))"
    using x by (intro float_pow_fpow) simp_all
  have arg: "month d + year d - day d * 2 = month d + year d - 2 * day d" by simp
  show ?thesis
    unfolding key2_raw_def py_mul_II py_pow_IF q py_add_IF py_pow_II [OF m] py_sub_FI py_round_F
      formula_key2_def arg ..
qed

lemma key3_raw_formula:
  assumes fp: "ieee_like fp" and cd: "calendar_date d" and k1: "0 \<le> k1" and k0: "0 < k0"
  shows "key3_raw fp d (PyInt k0) (PyInt k1) (PyInt k2) = I (formula_key3 fp d k0 k1 k2)"
proof -
  from cd have day: "1 \<le> day d" and month: "1 \<le> month d"
    by (simp_all add: calendar_date_def)
  have two: "(2::int) \<noteq> 0" by simp
  from k0 have n0: "k0 \<noteq> 0" by simp
  have x: "0 \<le> fl fp (of_int k1 / of_int k0)"
    using k1 k0 by (intro fl_nonneg [OF fp]) simp
  have "0 \<le> (month d mod 3) mod 2" by simp
  with day have "1 \<le> day d + (month d mod 3) mod 2" by linarith
  then have "1 \<le> fl fp (of_int (day d + (month d mod 3) mod 2))"
    using fl_ge_one [OF fp] by simp
  then have t: "float_pow fp (fl fp (of_int k1 / of_int k0))
      (fl fp (of_int (day d + (month d mod 3) mod 2))) =
      F (fpow fp (fl fp (of_int k1 / of_int k0)) (fl fp (of_int (day d + (month d mod 3) mod 2))))"
    using x by (intro float_pow_fpow) simp_all
  have "1 \<le> fl fp (of_int (month d))"
    using fl_ge_one [OF fp] month by simp
  then have u: "float_pow fp (fl fp (of_int (month d))) (fl fp (314/100)) =
      F (fpow fp (fl fp (of_int (month d))) (fl fp (314/100)))"
    by (intro float_pow_fpow) simp_all
  have half: "of_int (k1 + k2) / of_int 2 = (of_int (k1 + k2) / 2 :: real)" by simp
  show ?thesis
    unfolding key3_raw_def lit_def py_add_II py_truediv_II [OF two] py_truediv_II [OF n0]
      py_pow_FI t py_add_FF py_pow_IF u py_mul_FF py_round_F formula_key3_def half ..
qed

section \<open>The host of doubles and the first of December\<close>

lemma ieee_like_double_fpu: "ieee_like double_fpu"
proof -
  have "0 \<le> binary64 (x powr y)" for x y :: real
    using monoD [OF binary64_mono, of 0 "x powr y"] by (simp add: binary64_zero)
  then show ?thesis
    unfolding double_fpu_def by (intro ieee_like_binary64) simp
qed

lemma december_clock_today: "today december_clock = first_of_december_year_one"
  by (simp add: december_clock_def)

lemma december_clock_is_calendar_date: "calendar_date (today december_clock)"
  by (simp add: december_clock_def first_of_december_year_one_def calendar_date_def)

lemma prompt_body_first_of_december_year_one:
  assumes "ieee_like fp" and "today c1 = first_of_december_year_one"
  shows "prompt_body fp sha c1 c2 u = Inl TypeError"
  by (simp add: prompt_body_def generate_keys_first_of_december_year_one [OF assms])

text \<open>
  On 1 November of the year 1 the base of the power \<^verbatim>\<open>** 0.8\<close> is zero: the
  arithmetic completes, with \<open>key1_raw = 0\<close>.
\<close>

lemma first_of_november_year_one:
  assumes "ieee_like fp"
  shows "key0_raw fp \<lparr>year = 1, month = 11, day = 1\<rparr> = I 10"
proof -
  have "calendar_date \<lparr>year = 1, month = 11, day = 1\<rparr>" by (simp add: calendar_date_def)
  from key0_raw_bounds [OF this assms] show ?thesis by auto
qed

section \<open>Keys of the golden date under other hash functions\<close>

lemma golden_material_ok:
  "key_material exact_fpu (today golden_clock) =
     Inr (PyInt 32768, PyInt 4096, PyInt 260964414, PyInt 130484255)"
  by (simp add: golden_clock_def golden_key_material)



section \<open>The claims about the key generator\<close>

text \<open>
  Claim C1, as amended. On every calendar date but 1 December of the year 1, mode
  \<^verbatim>\<open>"shared"\<close> returns the digest of the two digests \<open>key0\<close> and \<open>key1\<close> put one
  after the other, each the digest of the decimal string of its raw key; the decimal
  strings themselves are not concatenated. The instance below takes \<open>bracket\<close> for the
  hash function, under which the two readings give different strings.
\<close>

theorem shared_key_is_digest_of_digests:
  assumes "calendar_date (today c)"
    and "\<not> (year (today c) = 1 \<and> month (today c) = 12 \<and> day (today c) = 1)"
    and "ieee_like fp"
  shows "\<exists>k0 k1 k2 k3.
           key_material fp (today c) = Inr (PyInt k0, PyInt k1, PyInt k2, PyInt k3) \<and>
           generate_keys fp sha c ''shared'' =
             Inr (SharedKey (sha (sha (str_int k0) @ sha (str_int k1))))"
proof -
  from generate_keys_total [OF assms, of sha] obtain k0 k1 k2 k3 where
    "key_material fp (today c) = Inr (PyInt k0, PyInt k1, PyInt k2, PyInt k3)"
    "generate_keys fp sha c ''shared'' =
       Inr (SharedKey (sha (sha (str_int k0) @ sha (str_int k1))))"
    by (elim exE conjE)
  then show ?thesis by (intro exI conjI)
qed

theorem shared_key_is_digest_of_digests_witness:
  "calendar_date (today golden_clock) \<and>
   \<not> (year (today golden_clock) = 1 \<and> month (today golden_clock) = 12 \<and> day (today golden_clock) = 1) \<and>
   ieee_like exact_fpu \<and>
   generate_keys exact_fpu bracket golden_clock ''shared'' =
     Inr (SharedKey (bracket (bracket ''32768'' @ bracket ''4096''))) \<and>
   bracket (bracket ''32768'' @ bracket ''4096'') = ''<<32768><4096>>'' \<and>
   bracket (bracket ''32768'' @ bracket ''4096'') \<noteq> bracket (''32768'' @ ''4096'')"
proof -
  from shared_key_is_digest_of_digests [OF golden_clock_ok ieee_like_exact_fpu, of bracket]
  obtain k0 k1 k2 k3 where
    km: "key_material exact_fpu (today golden_clock) = Inr (PyInt k0, PyInt k1, PyInt k2, PyInt k3)"
    and sh: "generate_keys exact_fpu bracket golden_clock ''shared'' =
      Inr (SharedKey (bracket (bracket (str_int k0) @ bracket (str_int k1))))"
    by (elim exE conjE)
  from km have "k0 = 32768" "k1 = 4096"
    by (simp_all add: golden_material_ok)
  with sh have a: "generate_keys exact_fpu bracket golden_clock ''shared'' =
      Inr (SharedKey (bracket (bracket ''32768'' @ bracket ''4096'')))"
    by (simp add: golden_strs)
  have b: "bracket (bracket ''32768'' @ bracket ''4096'') = ''<<32768><4096>>''"
    by (simp add: bracket_def)
  have c: "bracket (bracket ''32768'' @ bracket ''4096'') \<noteq> bracket (''32768'' @ ''4096'')"
    by (simp add: bracket_def)
  from golden_clock_ok ieee_like_exact_fpu a b c show ?thesis by (intro conjI)
qed

text \<open>
  Claim C1 as first stated, for every calendar date, fails on 1 December of the year 1:
  the arithmetic raises \<^verbatim>\<open>TypeError\<close> before anything is hashed, and mode
  \<^verbatim>\<open>"shared"\<close> returns no digest.
\<close>

theorem shared_key_raises_on_first_of_december_year_one:
  "calendar_date (today december_clock) \<and>
   generate_keys double_fpu bracket december_clock ''shared'' = Inl TypeError"
  using generate_keys_first_of_december_year_one
    [OF ieee_like_double_fpu december_clock_today, of bracket "''shared''"]
    december_clock_is_calendar_date
  by (intro conjI)

text \<open>
  Claim C2, as amended. On every calendar date but 1 December of the year 1, the four
  assignments of lines 42 to 49 complete, and their values are the ints that the four
  formulas of the specification give, each formula taking the values before it: Python's
  choice between int, float and complex arithmetic comes out, at every operation, as
  the formulas read. The instance below is the golden date on the exact host.
\<close>

theorem key_material_by_the_formulas:
  assumes cd: "calendar_date d"
    and ok: "\<not> (year d = 1 \<and> month d = 12 \<and> day d = 1)"
    and fp: "ieee_like fp"
  shows "key_material fp d =
           (let k0 = formula_key0 fp d;
                k1 = formula_key1 fp d k0;
                k2 = formula_key2 fp d k0 k1;
                k3 = formula_key3 fp d k0 k1 k2
            in Inr (PyInt k0, PyInt k1, PyInt k2, PyInt k3))"
proof -
  from cd have b: "1 \<le> year d" "1 \<le> month d" "month d \<le> 12" "1 \<le> day d"
    by (simp_all add: calendar_date_def)
  define k0 where "k0 = formula_key0 fp d"
  have k0: "key0_raw fp d = I k0"
    unfolding k0_def by (rule key0_raw_formula [OF cd fp])
  from key0_raw_bounds [OF cd fp] k0 have
    lower: "2 * year d + 8 \<le> k0" and
    later: "2 \<le> day d \<longrightarrow> 2 * year d + 7 * month d + 1 \<le> k0" and
    first: "day d = 1 \<longrightarrow> k0 = 2 * year d + 8"
    by auto
  have base: "0 \<le> k0 + 1 - month d"
  proof (cases "day d = 1")
    case True
    with first ok b show ?thesis by auto
  next
    case False
    with b have "2 \<le> day d" by simp
    with later b show ?thesis by simp
  qed
  define k1 where "k1 = formula_key1 fp d k0"
  have k1: "key1_raw fp d (PyInt k0) = I k1" and k1pos: "0 \<le> k1"
    unfolding k1_def by (rule key1_raw_formula [OF fp base])+
  from b have m0: "0 \<le> month d" by simp
  define k2 where "k2 = formula_key2 fp d k0 k1"
  have k2: "key2_raw fp d (PyInt k0) (PyInt k1) = I k2"
    unfolding k2_def by (rule key2_raw_formula [OF fp k1pos m0])
  from lower b have pos: "0 < k0" by simp
  define k3 where "k3 = formula_key3 fp d k0 k1 k2"
  have k3: "key3_raw fp d (PyInt k0) (PyInt k1) (PyInt k2) = I k3"
    unfolding k3_def by (rule key3_raw_formula [OF fp cd k1pos pos])
  have "key_material fp d = Inr (PyInt k0, PyInt k1, PyInt k2, PyInt k3)"
    by (simp add: key_material_def k0 k1 k2 k3)
  then show ?thesis
    unfolding k3_def k2_def k1_def k0_def Let_def .
qed

theorem key_material_by_the_formulas_witness:
  "calendar_date golden_date \<and>
   \<not> (year golden_date = 1 \<and> month golden_date = 12 \<and> day golden_date = 1) \<and>
   ieee_like exact_fpu \<and>
   formula_key0 exact_fpu golden_date = 32768 \<and>
   formula_key1 exact_fpu golden_date 32768 = 4096 \<and>
   formula_key2 exact_fpu golden_date 32768 4096 = 260964414 \<and>
   formula_key3 exact_fpu golden_date 32768 4096 260964414 = 130484255"
proof -
  have cd: "calendar_date golden_date"
    and ok: "\<not> (year golden_date = 1 \<and> month golden_date = 12 \<and> day golden_date = 1)"
    by (simp_all add: calendar_date_def golden_fields)
  define a0 where "a0 = formula_key0 exact_fpu golden_date"
  define a1 where "a1 = formula_key1 exact_fpu golden_date a0"
  define a2 where "a2 = formula_key2 exact_fpu golden_date a0 a1"
  define a3 where "a3 = formula_key3 exact_fpu golden_date a0 a1 a2"
  from key_material_by_the_formulas [OF cd ok ieee_like_exact_fpu]
  have "key_material exact_fpu golden_date = Inr (PyInt a0, PyInt a1, PyInt a2, PyInt a3)"
    unfolding Let_def a3_def a2_def a1_def a0_def .
  then have a: "a0 = 32768" "a1 = 4096" "a2 = 260964414" "a3 = 130484255"
    by (simp_all add: golden_key_material)
  from a(1) have k0: "formula_key0 exact_fpu golden_date = 32768"
    by (simp only: a0_def)
  from a(2) have k1: "formula_key1 exact_fpu golden_date 32768 = 4096"
    by (simp only: a1_def a(1))
  from a(3) have k2: "formula_key2 exact_fpu golden_date 32768 4096 = 260964414"
    by (simp only: a2_def a(1,2))
  from a(4) have k3: "formula_key3 exact_fpu golden_date 32768 4096 260964414 = 130484255"
    by (simp only: a3_def a(1,2,3))
  from cd ok ieee_like_exact_fpu k0 k1 k2 k3 show ?thesis by (intro conjI)
qed

text \<open>
  Claim C2 as first stated, for every calendar date, fails on 1 December of the year 1:
  \<open>key0_raw\<close> is 10, the base \<open>10 + 1 - 12\<close> of the power \<^verbatim>\<open>** 0.8\<close> is negative,
  Python makes the power a complex number, \<^verbatim>\<open>round\<close> raises \<^verbatim>\<open>TypeError\<close>, and
  there is no key material at all. This is on the host of doubles.
\<close>

theorem key_material_has_no_value_on_first_of_december_year_one:
  "calendar_date first_of_december_year_one \<and>
   key0_raw double_fpu first_of_december_year_one = I 10 \<and>
   key1_raw double_fpu first_of_december_year_one (PyInt 10) = Inl TypeError \<and>
   key_material double_fpu first_of_december_year_one = Inl TypeError"
  using first_of_december_year_one_raises [OF ieee_like_double_fpu]
    december_clock_is_calendar_date
  by (simp add: december_clock_today)

text \<open>
  Claim C3, as amended. On every calendar date but 1 December of the year 1, mode
  \<^verbatim>\<open>"normal"\<close> returns the list of the four digests in the order \<open>key0\<close>, \<open>key1\<close>,
  \<open>key2\<close>, \<open>key3\<close>; the four raw keys are ints and each digest is taken of the
  decimal string \<open>str_int\<close> gives: the digits of the absolute value with no leading
  zero, after a minus sign for a negative value (\<open>str_int_canonical\<close>).
\<close>

theorem normal_keys_are_digests_of_decimal_strings:
  assumes "calendar_date (today c)"
    and "\<not> (year (today c) = 1 \<and> month (today c) = 12 \<and> day (today c) = 1)"
    and "ieee_like fp"
  shows "\<exists>k0 k1 k2 k3.
           key_material fp (today c) = Inr (PyInt k0, PyInt k1, PyInt k2, PyInt k3) \<and>
           generate_keys fp sha c ''normal'' =
             Inr (KeyList [sha (str_int k0), sha (str_int k1), sha (str_int k2), sha (str_int k3)])"
proof -
  from generate_keys_total [OF assms, of sha] obtain k0 k1 k2 k3 where
    "key_material fp (today c) = Inr (PyInt k0, PyInt k1, PyInt k2, PyInt k3)"
    "generate_keys fp sha c ''normal'' =
       Inr (KeyList [sha (str_int k0), sha (str_int k1), sha (str_int k2), sha (str_int k3)])"
    by (elim exE conjE)
  then show ?thesis by (intro exI conjI)
qed

theorem normal_keys_are_digests_of_decimal_strings_witness:
  "calendar_date (today golden_clock) \<and>
   \<not> (year (today golden_clock) = 1 \<and> month (today golden_clock) = 12 \<and> day (today golden_clock) = 1) \<and>
   ieee_like exact_fpu \<and>
   generate_keys exact_fpu bracket golden_clock ''normal'' =
     Inr (KeyList [bracket ''32768'', bracket ''4096'', bracket ''260964414'', bracket ''130484255'']) \<and>
   [bracket ''32768'', bracket ''4096'', bracket ''260964414'', bracket ''130484255''] =
     [''<32768>'', ''<4096>'', ''<260964414>'', ''<130484255>'']"
proof -
  from normal_keys_are_digests_of_decimal_strings [OF golden_clock_ok ieee_like_exact_fpu, of bracket]
  obtain k0 k1 k2 k3 where
    km: "key_material exact_fpu (today golden_clock) = Inr (PyInt k0, PyInt k1, PyInt k2, PyInt k3)"
    and ks: "generate_keys exact_fpu bracket golden_clock ''normal'' =
      Inr (KeyList [bracket (str_int k0), bracket (str_int k1), bracket (str_int k2),
                    bracket (str_int k3)])"
    by (elim exE conjE)
  from km have "k0 = 32768" "k1 = 4096" "k2 = 260964414" "k3 = 130484255"
    by (simp_all add: golden_material_ok)
  with ks have a: "generate_keys exact_fpu bracket golden_clock ''normal'' =
      Inr (KeyList [bracket ''32768'', bracket ''4096'', bracket ''260964414'', bracket ''130484255''])"
    by (simp add: golden_strs)
  have b: "[bracket ''32768'', bracket ''4096'', bracket ''260964414'', bracket ''130484255''] =
     [''<32768>'', ''<4096>'', ''<260964414>'', ''<130484255>'']"
    by (simp add: bracket_def)
  from golden_clock_ok ieee_like_exact_fpu a b show ?thesis by (intro conjI)
qed

text \<open>
  Claim C3 as first stated, for every calendar date, fails on 1 December of the year 1:
  the arithmetic raises \<^verbatim>\<open>TypeError\<close> and mode \<^verbatim>\<open>"normal"\<close> returns no list.
\<close>

theorem normal_keys_raise_on_first_of_december_year_one:
  "calendar_date (today december_clock) \<and>
   generate_keys double_fpu bracket december_clock ''normal'' = Inl TypeError"
  using generate_keys_first_of_december_year_one
    [OF ieee_like_double_fpu december_clock_today, of bracket "''normal''"]
    december_clock_is_calendar_date
  by (intro conjI)

text \<open>
  Claim C6. The result is a function of the date the clock shows and of the mode: two
  readings of the clock that show the same date give the same result, whatever else
  differs between them.
\<close>

theorem generate_keys_depends_on_date_only:
  assumes "today c = today c'"
  shows "generate_keys fp sha c mode = generate_keys fp sha c' mode"
  using assms by (simp add: generate_keys_def)

theorem generate_keys_depends_on_date_only_witness:
  "today golden_clock = today (golden_clock\<lparr>seconds_into_day := 43200\<rparr>) \<and>
   golden_clock \<noteq> golden_clock\<lparr>seconds_into_day := 43200\<rparr> \<and>
   generate_keys exact_fpu plain golden_clock ''shared'' =
     generate_keys exact_fpu plain (golden_clock\<lparr>seconds_into_day := 43200\<rparr>) ''shared''"
proof -
  have d: "today golden_clock = today (golden_clock\<lparr>seconds_into_day := 43200\<rparr>)" by simp
  have "golden_clock \<noteq> golden_clock\<lparr>seconds_into_day := 43200\<rparr>"
    by (simp add: golden_clock_def)
  with d generate_keys_depends_on_date_only [OF d, of exact_fpu plain "''shared''"]
  show ?thesis by blast
qed

text \<open>
  Claim C7, as amended. On every calendar date but 1 December of the year 1, a mode
  other than \<^verbatim>\<open>"normal"\<close> and \<^verbatim>\<open>"shared"\<close> ends the call with \<^verbatim>\<open>ValueError\<close>
  and no keys, and the two supported modes return keys and raise nothing. The mode is
  tested after the arithmetic, so the statement holds where the arithmetic completes.
\<close>

theorem unsupported_mode_raises:
  assumes "calendar_date (today c)"
    and "\<not> (year (today c) = 1 \<and> month (today c) = 12 \<and> day (today c) = 1)"
    and "ieee_like fp"
  shows "(mode \<noteq> ''normal'' \<and> mode \<noteq> ''shared'' \<longrightarrow> generate_keys fp sha c mode = Inl ValueError) \<and>
         (\<exists>ks. generate_keys fp sha c ''normal'' = Inr (KeyList ks)) \<and>
         (\<exists>s. generate_keys fp sha c ''shared'' = Inr (SharedKey s))"
proof -
  from generate_keys_total [OF assms, of sha] obtain k0 k1 k2 k3 where
    n: "generate_keys fp sha c ''normal'' =
       Inr (KeyList [sha (str_int k0), sha (str_int k1), sha (str_int k2), sha (str_int k3)])"
    and s: "generate_keys fp sha c ''shared'' =
       Inr (SharedKey (sha (sha (str_int k0) @ sha (str_int k1))))"
    and e: "\<forall>mode. mode \<noteq> ''normal'' \<longrightarrow> mode \<noteq> ''shared'' \<longrightarrow>
              generate_keys fp sha c mode = Inl ValueError"
    by (elim exE conjE)
  from e have "mode \<noteq> ''normal'' \<and> mode \<noteq> ''shared'' \<longrightarrow> generate_keys fp sha c mode = Inl ValueError"
    by (intro impI) (elim conjE allE [of _ mode] impE, assumption+)
  moreover from n have "\<exists>ks. generate_keys fp sha c ''normal'' = Inr (KeyList ks)" by (rule exI)
  moreover from s have "\<exists>s. generate_keys fp sha c ''shared'' = Inr (SharedKey s)" by (rule exI)
  ultimately show ?thesis by (intro conjI)
qed

theorem unsupported_mode_raises_witness:
  "calendar_date (today golden_clock) \<and>
   \<not> (year (today golden_clock) = 1 \<and> month (today golden_clock) = 12 \<and> day (today golden_clock) = 1) \<and>
   ieee_like exact_fpu \<and> ''admin'' \<noteq> ''normal'' \<and> ''admin'' \<noteq> ''shared'' \<and>
   generate_keys exact_fpu plain golden_clock ''admin'' = Inl ValueError \<and>
   (\<exists>ks. generate_keys exact_fpu plain golden_clock ''normal'' = Inr (KeyList ks)) \<and>
   (\<exists>s. generate_keys exact_fpu plain golden_clock ''shared'' = Inr (SharedKey s))"
  using unsupported_mode_raises [OF golden_clock_ok ieee_like_exact_fpu, of "''admin''" plain]
    golden_clock_ok ieee_like_exact_fpu by simp

text \<open>
  Claim C7 as first stated, for every date, fails on 1 December of the year 1: the
  arithmetic raises before the mode is looked at, so an unsupported mode ends the call
  with \<^verbatim>\<open>TypeError\<close>, not \<^verbatim>\<open>ValueError\<close>, and both supported modes raise too.
\<close>

theorem every_mode_raises_type_error_on_first_of_december_year_one:
  "calendar_date (today december_clock) \<and>
   generate_keys double_fpu bracket december_clock ''admin'' = Inl TypeError \<and>
   generate_keys double_fpu bracket december_clock ''admin'' \<noteq> Inl ValueError \<and>
   generate_keys double_fpu bracket december_clock ''normal'' = Inl TypeError \<and>
   generate_keys double_fpu bracket december_clock ''shared'' = Inl TypeError"
proof -
  note g = generate_keys_first_of_december_year_one [OF ieee_like_double_fpu december_clock_today]
  have "generate_keys double_fpu bracket december_clock ''admin'' \<noteq> Inl ValueError"
    by (simp only: g) simp
  with december_clock_is_calendar_date g [of bracket "''admin''"] g [of bracket "''normal''"]
    g [of bracket "''shared''"]
  show ?thesis by (intro conjI)
qed

text \<open>
  Claim C8. The seed of line 38 and its digest of line 39 reach no result: with the
  two lines removed the function returns the same value, or raises the same exception,
  in every mode. On a calendar date the seed is a product of int powers and cannot raise.
\<close>

theorem seed_is_dead:
  assumes "calendar_date (today c)"
  shows "generate_keys fp sha c mode = generate_keys_without_seed fp sha c mode"
  using assms by (simp add: generate_keys_def generate_keys_without_seed_def raw_seed_int Let_def)

theorem seed_is_dead_witness:
  "calendar_date (today golden_clock) \<and>
   generate_keys exact_fpu plain golden_clock ''normal'' =
     generate_keys_without_seed exact_fpu plain golden_clock ''normal''"
  using seed_is_dead [OF golden_clock_ok(1), of exact_fpu plain "''normal''"] golden_clock_ok(1)
  by simp

text \<open>
  Claim C9, as amended. On every calendar date but 1 December of the year 1:
  \<open>key0_raw \<ge> 2 * year + 7\<close>; the base \<open>key0_raw + 1 - month\<close> of the power
  \<^verbatim>\<open>** 0.8\<close> is not negative, and it is positive wherever \<open>2 * year + 7 > month - 1\<close>
  and indeed on every date but 1 November of the year 1, where it is zero
  (\<open>first_of_november_year_one\<close>); \<open>key1_raw\<close> is not negative; \<open>key0_raw\<close> is not
  zero; and all four assignments complete with int values, so that no step raises.
  The inequality \<open>2 * year + 7 > month - 1\<close> itself fails from October of the year 1
  and in December of the year 2, and is a premise here, not a conclusion.
\<close>

theorem arithmetic_is_safe_on_every_other_date:
  assumes cd: "calendar_date d"
    and ok: "\<not> (year d = 1 \<and> month d = 12 \<and> day d = 1)"
    and fp: "ieee_like fp"
  shows "\<exists>k0 k1 k2 k3.
           key0_raw fp d = I k0 \<and> 2 * year d + 7 \<le> k0 \<and>
           0 \<le> k0 + 1 - month d \<and>
           (month d - 1 < 2 * year d + 7 \<longrightarrow> 0 < k0 + 1 - month d) \<and>
           (\<not> (year d = 1 \<and> month d = 11 \<and> day d = 1) \<longrightarrow> 0 < k0 + 1 - month d) \<and>
           key1_raw fp d (PyInt k0) = I k1 \<and> 0 \<le> k1 \<and> k0 \<noteq> 0 \<and>
           key_material fp d = Inr (PyInt k0, PyInt k1, PyInt k2, PyInt k3)"
proof -
  from cd have b: "1 \<le> year d" "1 \<le> month d" "month d \<le> 12" "1 \<le> day d"
    by (simp_all add: calendar_date_def)
  from key0_raw_bounds [OF cd fp] obtain k0 where
    k0: "key0_raw fp d = I k0" and lower: "2 * year d + 8 \<le> k0"
    and later: "2 \<le> day d \<longrightarrow> 2 * year d + 7 * month d + 1 \<le> k0"
    and first: "day d = 1 \<longrightarrow> k0 = 2 * year d + 8"
    by blast
  from lower have seven: "2 * year d + 7 \<le> k0" by simp
  from lower have chain: "month d - 1 < 2 * year d + 7 \<longrightarrow> 0 < k0 + 1 - month d" by simp
  have base: "0 \<le> k0 + 1 - month d"
  proof (cases "day d = 1")
    case True
    with first ok b show ?thesis by auto
  next
    case False
    with b have "2 \<le> day d" by simp
    with later b show ?thesis by simp
  qed
  have strict: "\<not> (year d = 1 \<and> month d = 11 \<and> day d = 1) \<longrightarrow> 0 < k0 + 1 - month d"
  proof (cases "day d = 1")
    case True
    with first ok b show ?thesis by auto
  next
    case False
    with b have "2 \<le> day d" by simp
    with later b show ?thesis by simp
  qed
  from key1_raw_int [OF fp base] obtain k1 where
    k1: "0 \<le> k1" "key1_raw fp d (PyInt k0) = I k1"
    by blast
  from b have "0 \<le> month d" by simp
  from key2_raw_int [OF fp k1(1) this] obtain k2 where
    k2: "key2_raw fp d (PyInt k0) (PyInt k1) = I k2"
    by blast
  from lower b have pos: "0 < k0" by linarith
  then have nz: "k0 \<noteq> 0" by simp
  from key3_raw_int [OF fp cd k1(1) pos] obtain k3 where
    k3: "key3_raw fp d (PyInt k0) (PyInt k1) (PyInt k2) = I k3"
    by blast
  have km: "key_material fp d = Inr (PyInt k0, PyInt k1, PyInt k2, PyInt k3)"
    by (simp add: key_material_def k0 k1(2) k2 k3)
  from k0 seven base chain strict k1(2) k1(1) nz km show ?thesis
    by (intro exI [of _ k0] exI [of _ k1] exI [of _ k2] exI [of _ k3] conjI)
qed

theorem arithmetic_is_safe_on_every_other_date_witness:
  "calendar_date golden_date \<and>
   \<not> (year golden_date = 1 \<and> month golden_date = 12 \<and> day golden_date = 1) \<and>
   ieee_like exact_fpu \<and>
   month golden_date - 1 < 2 * year golden_date + 7 \<and>
   \<not> (year golden_date = 1 \<and> month golden_date = 11 \<and> day golden_date = 1) \<and>
   key0_raw exact_fpu golden_date = I 32768 \<and> 2 * year golden_date + 7 \<le> 32768 \<and>
   0 < 32768 + 1 - month golden_date \<and>
   key1_raw exact_fpu golden_date (PyInt 32768) = I 4096 \<and>
   key_material exact_fpu golden_date =
     Inr (PyInt 32768, PyInt 4096, PyInt 260964414, PyInt 130484255)"
proof -
  have cd: "calendar_date golden_date"
    and ok: "\<not> (year golden_date = 1 \<and> month golden_date = 12 \<and> day golden_date = 1)"
    and chain: "month golden_date - 1 < 2 * year golden_date + 7"
    and nov: "\<not> (year golden_date = 1 \<and> month golden_date = 11 \<and> day golden_date = 1)"
    by (simp_all add: calendar_date_def golden_fields)
  from arithmetic_is_safe_on_every_other_date [OF cd ok ieee_like_exact_fpu]
  obtain k0 k1 k2 k3 where
    k0: "key0_raw exact_fpu golden_date = I k0" and seven: "2 * year golden_date + 7 \<le> k0"
    and imp: "month golden_date - 1 < 2 * year golden_date + 7 \<longrightarrow> 0 < k0 + 1 - month golden_date"
    and k1: "key1_raw exact_fpu golden_date (PyInt k0) = I k1"
    and km: "key_material exact_fpu golden_date = Inr (PyInt k0, PyInt k1, PyInt k2, PyInt k3)"
    by (elim exE conjE)
  from k0 have v0: "k0 = 32768" by (simp add: golden_key0)
  from imp chain have pos: "0 < k0 + 1 - month golden_date" by (rule mp)
  from km have v: "k1 = 4096" "k2 = 260964414" "k3 = 130484255"
    by (simp_all add: golden_key_material)
  from cd ok ieee_like_exact_fpu chain nov k0 seven pos k1 km show ?thesis
    unfolding v0 v by (intro conjI)
qed

text \<open>
  Claim C9 as first stated, for every year from 1 on, fails on 1 December of the
  year 1: \<open>key0_raw\<close> is 10, \<open>2 * year + 7 = 9\<close> is not above \<open>month - 1 = 11\<close>, the
  base \<open>10 + 1 - 12\<close> is negative, its power is a complex number, and \<^verbatim>\<open>round\<close>
  raises \<^verbatim>\<open>TypeError\<close>.
\<close>

theorem arithmetic_raises_on_first_of_december_year_one:
  "calendar_date first_of_december_year_one \<and>
   1 \<le> year first_of_december_year_one \<and>
   key0_raw exact_fpu first_of_december_year_one = I 10 \<and>
   \<not> (month first_of_december_year_one - 1 < 2 * year first_of_december_year_one + 7) \<and>
   \<not> (0 < 10 + 1 - month first_of_december_year_one) \<and>
   key1_raw exact_fpu first_of_december_year_one (PyInt 10) = Inl TypeError \<and>
   key_material exact_fpu first_of_december_year_one = Inl TypeError"
  using first_of_december_year_one_raises [OF ieee_like_exact_fpu]
  by (simp add: calendar_date_def first_of_december_year_one_def)

section \<open>The claims about the prompt\<close>

text \<open>
  Claim C4, as amended. When neither reading of the clock shows 1 December of the
  year 1, one pass of the prompt never raises and decides in this order: a key that is
  one of the four normal keys ends the function with \<^verbatim>\<open>"gpt-3.5-turbo"\<close> (the
  standard tier); otherwise a key equal to the shared key ends it with
  \<^verbatim>\<open>"gpt-4o-mini"\<close> (the elevated tier); any other key, the empty one included, is
  rejected with the message \<^verbatim>\<open>Incorrect Key!\<close>. The two key sets are generated by
  two calls, each with its own reading of the clock.
\<close>

theorem prompt_body_classifies_in_order:
  assumes "calendar_date (today c1)"
    and "\<not> (year (today c1) = 1 \<and> month (today c1) = 12 \<and> day (today c1) = 1)"
    and "calendar_date (today c2)"
    and "\<not> (year (today c2) = 1 \<and> month (today c2) = 12 \<and> day (today c2) = 1)"
    and "ieee_like fp"
  shows "\<exists>ks s.
           generate_keys fp sha c1 ''normal'' = Inr (KeyList ks) \<and>
           generate_keys fp sha c2 ''shared'' = Inr (SharedKey s) \<and>
           prompt_body fp sha c1 c2 u =
             Inr (if u \<in> set ks then (Return ''gpt-3.5-turbo'', [])
                  else if u = s then
                    (Return ''gpt-4o-mini'', [''Shared key accepted. Switching to GPT-4o Mini.''])
                  else (Again, [Fore_RED @ ''Incorrect Key!'']))"
proof -
  from generate_keys_total [OF assms(1,2,5), of sha] obtain ks where
    n: "generate_keys fp sha c1 ''normal'' = Inr (KeyList ks)"
    by (elim exE conjE)
  from generate_keys_total [OF assms(3,4,5), of sha] obtain s where
    s: "generate_keys fp sha c2 ''shared'' = Inr (SharedKey s)"
    by (elim exE conjE)
  from n s prompt_body_of_keys [OF n s, of u] show ?thesis
    by (intro exI [of _ ks] exI [of _ s] conjI)
qed

theorem prompt_body_classifies_in_order_witness:
  "calendar_date (today golden_clock) \<and>
   \<not> (year (today golden_clock) = 1 \<and> month (today golden_clock) = 12 \<and> day (today golden_clock) = 1) \<and>
   ieee_like exact_fpu \<and>
   prompt_body exact_fpu plain golden_clock golden_clock [] =
     Inr (Again, [Fore_RED @ ''Incorrect Key!'']) \<and>
   prompt_body exact_fpu plain golden_clock golden_clock ''260964414'' =
     Inr (Return ''gpt-3.5-turbo'', []) \<and>
   prompt_body exact_fpu plain golden_clock golden_clock ''327684096'' =
     Inr (Return ''gpt-4o-mini'', [''Shared key accepted. Switching to GPT-4o Mini.''])"
proof -
  have *: "prompt_body exact_fpu plain golden_clock golden_clock u =
      Inr (if u \<in> set [''32768'', ''4096'', ''260964414'', ''130484255''] then (Return ''gpt-3.5-turbo'', [])
           else if u = ''327684096'' then
             (Return ''gpt-4o-mini'', [''Shared key accepted. Switching to GPT-4o Mini.''])
           else (Again, [Fore_RED @ ''Incorrect Key!'']))" for u
  proof -
    from prompt_body_classifies_in_order
      [OF golden_clock_ok golden_clock_ok ieee_like_exact_fpu, of plain u]
    obtain ks s where
      "generate_keys exact_fpu plain golden_clock ''normal'' = Inr (KeyList ks)"
      "generate_keys exact_fpu plain golden_clock ''shared'' = Inr (SharedKey s)"
      "prompt_body exact_fpu plain golden_clock golden_clock u =
         Inr (if u \<in> set ks then (Return ''gpt-3.5-turbo'', [])
              else if u = s then
                (Return ''gpt-4o-mini'', [''Shared key accepted. Switching to GPT-4o Mini.''])
              else (Again, [Fore_RED @ ''Incorrect Key!'']))"
      by (elim exE conjE)
    then show ?thesis
      by (simp only: golden_normal_keys golden_shared_key sum.inject keys.inject)
  qed
  have a: "prompt_body exact_fpu plain golden_clock golden_clock [] =
     Inr (Again, [Fore_RED @ ''Incorrect Key!''])"
    by (subst *) simp
  have b: "prompt_body exact_fpu plain golden_clock golden_clock ''260964414'' =
     Inr (Return ''gpt-3.5-turbo'', [])"
    by (subst *) simp
  have c: "prompt_body exact_fpu plain golden_clock golden_clock ''327684096'' =
     Inr (Return ''gpt-4o-mini'', [''Shared key accepted. Switching to GPT-4o Mini.''])"
    by (subst *) simp
  from golden_clock_ok ieee_like_exact_fpu a b c show ?thesis
    by (intro conjI)
qed

text \<open>
  Claim C4 as first stated, for every date, fails on 1 December of the year 1: the
  pass generates the keys before it compares anything, generating them raises
  \<^verbatim>\<open>TypeError\<close>, and the pass raises with it, whatever key was entered.
\<close>

theorem prompt_body_raises_on_first_of_december_year_one:
  "calendar_date (today december_clock) \<and>
   prompt_body double_fpu bracket december_clock december_clock [] = Inl TypeError"
  using prompt_body_first_of_december_year_one
    [OF ieee_like_double_fpu december_clock_today, of bracket december_clock "[]"]
    december_clock_is_calendar_date
  by (intro conjI)




text \<open>
  Claim C10. Whenever \<^verbatim>\<open>prompt_for_key\<close> returns a value, the value is
  \<^verbatim>\<open>"gpt-3.5-turbo"\<close>, for an entered key that was in the list of normal keys, or
  \<^verbatim>\<open>"gpt-4o-mini"\<close>, for an entered key that was not and that equalled the shared
  key. On a key that matches neither, the function prints \<^verbatim>\<open>Incorrect Key!\<close> and
  asks again: the call continues as the call for the next line of input.
\<close>

theorem prompt_for_key_returns_only_on_a_valid_key:
  "(prompt_for_key fp sha keyboard clk i out = Some (Inr model, out') \<longrightarrow>
      (model = ''gpt-3.5-turbo'' \<or> model = ''gpt-4o-mini'') \<and>
      (\<exists>j u ks. i \<le> j \<and> keyboard j = Some u \<and>
         generate_keys fp sha (clk (2 * j)) ''normal'' = Inr (KeyList ks) \<and>
         (model = ''gpt-3.5-turbo'' \<and> u \<in> set ks \<or>
          model = ''gpt-4o-mini'' \<and> u \<notin> set ks \<and>
          generate_keys fp sha (clk (2 * j + 1)) ''shared'' = Inr (SharedKey u)))) \<and>
   (keyboard i = Some u \<and>
    generate_keys fp sha (clk (2 * i)) ''normal'' = Inr (KeyList ks) \<and>
    generate_keys fp sha (clk (2 * i + 1)) ''shared'' = Inr (SharedKey s) \<and>
    u \<notin> set ks \<and> u \<noteq> s \<longrightarrow>
      prompt_for_key fp sha keyboard clk i out =
        prompt_for_key fp sha keyboard clk (i + 1)
          (out @ [''Key: '', Fore_RED @ ''Incorrect Key!'']))"
proof (intro conjI impI)
  assume ret: "prompt_for_key fp sha keyboard clk i out = Some (Inr model, out')"
  from prompt_for_key_return [OF ret]
  show "\<exists>j u ks. i \<le> j \<and> keyboard j = Some u \<and>
         generate_keys fp sha (clk (2 * j)) ''normal'' = Inr (KeyList ks) \<and>
         (model = ''gpt-3.5-turbo'' \<and> u \<in> set ks \<or>
          model = ''gpt-4o-mini'' \<and> u \<notin> set ks \<and>
          generate_keys fp sha (clk (2 * j + 1)) ''shared'' = Inr (SharedKey u))" .
  then show "model = ''gpt-3.5-turbo'' \<or> model = ''gpt-4o-mini''"
    by (elim exE conjE disjE) (erule disjI1, erule disjI2)
next
  assume "keyboard i = Some u \<and>
    generate_keys fp sha (clk (2 * i)) ''normal'' = Inr (KeyList ks) \<and>
    generate_keys fp sha (clk (2 * i + 1)) ''shared'' = Inr (SharedKey s) \<and>
    u \<notin> set ks \<and> u \<noteq> s"
  then show "prompt_for_key fp sha keyboard clk i out =
      prompt_for_key fp sha keyboard clk (i + 1) (out @ [''Key: '', Fore_RED @ ''Incorrect Key!''])"
    by (elim conjE) (rule prompt_for_key_again)
qed

theorem prompt_for_key_returns_only_on_a_valid_key_witness:
  "golden_keyboard 0 = Some ''letmein'' \<and>
   generate_keys exact_fpu plain golden_clock ''normal'' =
     Inr (KeyList [''32768'', ''4096'', ''260964414'', ''130484255'']) \<and>
   generate_keys exact_fpu plain golden_clock ''shared'' = Inr (SharedKey ''327684096'') \<and>
   ''letmein'' \<notin> set [''32768'', ''4096'', ''260964414'', ''130484255''] \<and>
   ''letmein'' \<noteq> ''327684096'' \<and>
   prompt_for_key exact_fpu plain golden_keyboard (\<lambda>n. golden_clock) 0 [] =
     prompt_for_key exact_fpu plain golden_keyboard (\<lambda>n. golden_clock) 1
       [''Key: '', Fore_RED @ ''Incorrect Key!''] \<and>
   prompt_for_key exact_fpu plain golden_keyboard (\<lambda>n. golden_clock) 0 [] =
     Some (Inr ''gpt-3.5-turbo'', [''Key: '', Fore_RED @ ''Incorrect Key!'', ''Key: '']) \<and>
   (\<exists>j u ks. 0 \<le> j \<and> golden_keyboard j = Some u \<and>
      generate_keys exact_fpu plain golden_clock ''normal'' = Inr (KeyList ks) \<and> u \<in> set ks)"
proof -
  let ?pfk = "prompt_for_key exact_fpu plain golden_keyboard (\<lambda>n. golden_clock)"
  note inst = prompt_for_key_returns_only_on_a_valid_key
    [of exact_fpu plain golden_keyboard "\<lambda>n. golden_clock" 0 "[]" "''gpt-3.5-turbo''"
      "[''Key: '', Fore_RED @ ''Incorrect Key!'', ''Key: '']"
      "''letmein''" "[''32768'', ''4096'', ''260964414'', ''130484255'']" "''327684096''"]
  have k0: "golden_keyboard 0 = Some ''letmein''" by (simp add: golden_keyboard_def)
  have k1: "golden_keyboard (Suc 0) = Some ''4096''" by (simp add: golden_keyboard_def)
  have wrong: "''letmein'' \<notin> set [''32768'', ''4096'', ''260964414'', ''130484255'']"
    "''letmein'' \<noteq> ''327684096''" by simp_all
  from inst [THEN conjunct2] k0 golden_normal_keys golden_shared_key wrong
  have step: "?pfk 0 [] = ?pfk 1 [''Key: '', Fore_RED @ ''Incorrect Key!'']"
    by simp
  have body: "prompt_body exact_fpu plain golden_clock golden_clock ''4096'' =
      Inr (Return ''gpt-3.5-turbo'', [])"
    by (simp add: prompt_body_of_keys [OF golden_normal_keys golden_shared_key])
  have "?pfk 1 [''Key: '', Fore_RED @ ''Incorrect Key!''] =
      Some (Inr ''gpt-3.5-turbo'', [''Key: '', Fore_RED @ ''Incorrect Key!'', ''Key: ''])"
    by (subst prompt_for_key.simps) (simp add: k1 body)
  with step have ret: "?pfk 0 [] =
      Some (Inr ''gpt-3.5-turbo'', [''Key: '', Fore_RED @ ''Incorrect Key!'', ''Key: ''])"
    by simp
  from inst [THEN conjunct1, THEN mp, OF ret, THEN conjunct2]
  have ex: "\<exists>j u ks. 0 \<le> j \<and> golden_keyboard j = Some u \<and>
      generate_keys exact_fpu plain golden_clock ''normal'' = Inr (KeyList ks) \<and> u \<in> set ks"
    by (elim exE conjE disjE) (simp, blast, simp)
  from k0 golden_normal_keys golden_shared_key wrong step ret ex show ?thesis
    by (intro conjI)
qed

end
